theory Spec2Isabelle
  imports Main "HOL-Library.AList" "HOL-Library.Sublist"
begin

section \<open>Data model of the authentication service\<close>

text \<open>
  The development embeds \<^verbatim>\<open>volttron/platform/auth/auth.py\<close> (class \<^verbatim>\<open>AuthService\<close>).
  Python strings are \<^typ>\<open>string\<close>, \<^verbatim>\<open>None\<close>-able values are options, a \<^verbatim>\<open>dict\<close> whose
  iteration order matters is an association list, and every exception of the source is a value
  of \<open>py_exception\<close>.
\<close>

datatype py_exception = ValueError | IndexError | KeyError | AuthException
  | Timeout | RemoteError | Unreachable

text \<open>
  The five keys shared by an \<^verbatim>\<open>AuthEntry\<close> and by the dictionaries kept in the pending, approved
  and denied lists. A field that is \<^verbatim>\<open>None\<close> in Python is \<open>None\<close> here.
\<close>

record credential =
  domain :: "string option"
  address :: "string option"
  mechanism :: string
  credentials :: "string option"
  user_id :: "string option"

text \<open>The dictionaries of \<^verbatim>\<open>_auth_pending\<close>, \<^verbatim>\<open>_auth_approved\<close> and \<^verbatim>\<open>_auth_denied\<close>.\<close>

record auth_record = credential +
  retries :: int

text \<open>
  The attributes of an \<^verbatim>\<open>AuthEntry\<close> that the service reads and writes. The dictionary
  \<^verbatim>\<open>rpc_method_authorizations\<close> keeps its insertion order.
\<close>

record auth_entry = credential +
  identity :: "string option"
  capabilities :: "string list"
  groups :: "string list"
  roles :: "string list"
  rpc_method_authorizations :: "(string \<times> string list) list"
  comments :: "string option"
  enabled :: bool

text \<open>
  What the service takes from outside this file: helpers of other modules of the platform
  (\<^verbatim>\<open>dump_user\<close>, the pattern flag and the regular-expression match of an entry field, the
  ordering used by \<^verbatim>\<open>entries.sort()\<close>, the identities of \<^verbatim>\<open>known_identities\<close>), the agent
  instance manager (\<^verbatim>\<open>aip.agent_uuid_from_pid\<close>), the operating system (\<^verbatim>\<open>os.getuid\<close>) and the
  certificate subsystem (\<open>certs_value_error op user\<close> is \<open>True\<close> when the guarded block of
  operation \<open>op\<close> raises \<^verbatim>\<open>ValueError\<close> for that user).
\<close>

record platform =
  dump_user :: "string list \<Rightarrow> string"
  flagged_pattern :: "string \<Rightarrow> bool"
  fullmatch :: "string \<Rightarrow> string \<Rightarrow> bool"
  sort_entries :: "auth_entry list \<Rightarrow> auth_entry list"
  agent_uuid_from_pid :: "int \<Rightarrow> string option"
  getuid :: int
  PROCESS_IDENTITIES :: "string list"
  CONTROL_CONNECTION :: string
  certs_value_error :: "string \<Rightarrow> string \<Rightarrow> bool"

datatype log_record = LogError string | LogException py_exception

text \<open>The persistent policy store: the allow list and the deny list of the auth file.\<close>

record auth_file =
  allow_entries :: "auth_entry list"
  deny_entries :: "auth_entry list"

text \<open>The attributes of \<^verbatim>\<open>AuthService\<close> set in \<^verbatim>\<open>__init__\<close>, and the error log.\<close>

record auth_service =
  allow_any :: bool
  certs :: bool
  the_auth_file :: auth_file
  auth_entries :: "auth_entry list"
  auth_pending :: "auth_record list"
  auth_denied :: "auth_record list"
  auth_approved :: "auth_record list"
  logged :: "log_record list"

section \<open>Python built-ins\<close>

text \<open>Truth value of a string that may be \<^verbatim>\<open>None\<close>: \<^verbatim>\<open>None\<close> and the empty string are false.\<close>

definition truthy :: "string option \<Rightarrow> bool" where
  "truthy v = (case v of None \<Rightarrow> False | Some s \<Rightarrow> s \<noteq> [])"

definition startswith :: "string \<Rightarrow> string \<Rightarrow> bool" where
  "startswith s p = (take (length p) s = p)"

text \<open>\<^verbatim>\<open>s.split(sep)\<close> for a one-character separator: never an empty list.\<close>

fun split_sep :: "char \<Rightarrow> string \<Rightarrow> string list" where
  "split_sep sep [] = [[]]"
| "split_sep sep (c # cs) =
     (if c = sep then [] # split_sep sep cs
      else (case split_sep sep cs of
              [] \<Rightarrow> [[c]]
            | p # ps \<Rightarrow> (c # p) # ps))"

text \<open>
  \<^verbatim>\<open>int(s)\<close> on a string, base ten: surrounding white space is dropped, one sign may lead, and
  the digits may be separated by single underscores. \<open>None\<close> stands for \<^verbatim>\<open>ValueError\<close>.
  Characters are the code points below 256; of these only \<^verbatim>\<open>0\<close>..\<^verbatim>\<open>9\<close> are decimal digits.
  The interpreter's configurable limit on the number of digits is left out.
\<close>

definition py_space :: "char \<Rightarrow> bool" where
  "py_space c = ((of_char c :: nat) \<in> {9, 10, 11, 12, 13, 28, 29, 30, 31, 32, 133, 160})"

definition py_digit :: "char \<Rightarrow> bool" where
  "py_digit c = (48 \<le> (of_char c :: nat) \<and> (of_char c :: nat) \<le> 57)"

fun py_digits :: "bool \<Rightarrow> int \<Rightarrow> string \<Rightarrow> int option" where
  "py_digits after_digit acc [] = (if after_digit then Some acc else None)"
| "py_digits after_digit acc (c # cs) =
     (if py_digit c then py_digits True (10 * acc + (int (of_char c) - 48)) cs
      else if c = CHR ''_'' \<and> after_digit then py_digits False acc cs
      else None)"

definition py_strip :: "string \<Rightarrow> string" where
  "py_strip s = rev (dropWhile py_space (rev (dropWhile py_space s)))"

definition py_int :: "string \<Rightarrow> int option" where
  "py_int s =
     (case py_strip s of
        [] \<Rightarrow> None
      | c # cs \<Rightarrow>
          if c = CHR ''+'' then py_digits False 0 cs
          else if c = CHR ''-'' then map_option uminus (py_digits False 0 cs)
          else py_digits False 0 (c # cs))"

section \<open>Matching and authentication\<close>

text \<open>
  Modelled from the spec: \<^verbatim>\<open>AuthEntry.match\<close> is not part of the sources at hand. A stored
  domain, address or credential matches by string equality, or by a full regular-expression
  match when the stored value is flagged as a pattern; the mechanism matches by equality. The
  credential compared is the first element of the credentials passed in. A field that is not
  populated constrains nothing; the spec is silent on such a field, and the theorems below hold
  as well when it matches nothing.
\<close>

definition field_match :: "platform \<Rightarrow> string option \<Rightarrow> string \<Rightarrow> bool" where
  "field_match P stored x =
     (case stored of
        None \<Rightarrow> True
      | Some s \<Rightarrow> if flagged_pattern P s then fullmatch P s x else s = x)"

definition credentials_match :: "platform \<Rightarrow> string option \<Rightarrow> string list \<Rightarrow> bool" where
  "credentials_match P stored cs =
     (case stored of
        None \<Rightarrow> True
      | Some s \<Rightarrow> (case cs of [] \<Rightarrow> False | x # _ \<Rightarrow> field_match P (Some s) x))"

definition match ::
  "platform \<Rightarrow> auth_entry \<Rightarrow> string \<Rightarrow> string \<Rightarrow> string \<Rightarrow> string list \<Rightarrow> bool" where
  "match P entry d a m cs =
     (field_match P (domain entry) d \<and> field_match P (address entry) a \<and>
      mechanism entry = m \<and> credentials_match P (credentials entry) cs)"

text \<open>\<^verbatim>\<open>dump_user(domain, address, mechanism, *credentials[:1])\<close>\<close>

definition synthesized_user :: "platform \<Rightarrow> string \<Rightarrow> string \<Rightarrow> string \<Rightarrow> string list \<Rightarrow> string" where
  "synthesized_user P d a m cs = dump_user P ([d, a, m] @ take 1 cs)"

text \<open>\<^verbatim>\<open>entry.user_id or dump_user(...)\<close>\<close>

definition entry_user ::
  "platform \<Rightarrow> auth_entry \<Rightarrow> string \<Rightarrow> string \<Rightarrow> string \<Rightarrow> string list \<Rightarrow> string" where
  "entry_user P entry d a m cs =
     (case user_id entry of
        None \<Rightarrow> synthesized_user P d a m cs
      | Some u \<Rightarrow> if u \<noteq> [] then u else synthesized_user P d a m cs)"

text \<open>The loop over \<^verbatim>\<open>self.auth_entries\<close>; \<open>None\<close> when it ends without returning.\<close>

fun authenticate_entries ::
  "platform \<Rightarrow> auth_entry list \<Rightarrow> string \<Rightarrow> string \<Rightarrow> string \<Rightarrow> string list \<Rightarrow> string option" where
  "authenticate_entries P [] d a m cs = None"
| "authenticate_entries P (entry # rest) d a m cs =
     (if match P entry d a m cs then Some (entry_user P entry d a m cs)
      else authenticate_entries P rest d a m cs)"

text \<open>The last statement: \<^verbatim>\<open>if self.allow_any: return dump_user(...)\<close>, else \<^verbatim>\<open>None\<close>.\<close>

definition allow_any_user ::
  "platform \<Rightarrow> auth_service \<Rightarrow> string \<Rightarrow> string \<Rightarrow> string \<Rightarrow> string list \<Rightarrow> string option" where
  "allow_any_user P st d a m cs =
     (if allow_any st then Some (synthesized_user P d a m cs) else None)"

text \<open>
  The block under \<^verbatim>\<open>if len(parts) > 2\<close>: \<open>Inl\<close> when \<^verbatim>\<open>int(parts[2])\<close> raises, \<open>Inr (Some u)\<close>
  when it returns a user id, \<open>Inr None\<close> when control falls through.
\<close>

definition agent_user ::
  "platform \<Rightarrow> string \<Rightarrow> string \<Rightarrow> string list \<Rightarrow> py_exception + string option" where
  "agent_user P d a parts =
     (if length parts > 2 then
        (case py_int (parts ! 2) of
           None \<Rightarrow> Inl ValueError
         | Some pid \<Rightarrow>
             (case agent_uuid_from_pid P pid of
                None \<Rightarrow> Inr None
              | Some agent_uuid \<Rightarrow>
                  if agent_uuid \<noteq> [] then Inr (Some (dump_user P [d, a, ''AGENT'', agent_uuid]))
                  else Inr None))
      else Inr None)"

text \<open>
  \<^verbatim>\<open>AuthService.authenticate\<close>: \<open>Inl e\<close> when the call raises \<open>e\<close>, \<open>Inr None\<close> when it returns
  \<^verbatim>\<open>None\<close>, \<open>Inr (Some u)\<close> when it returns the user id \<open>u\<close>.
\<close>

definition authenticate ::
  "platform \<Rightarrow> auth_service \<Rightarrow> string \<Rightarrow> string \<Rightarrow> string \<Rightarrow> string list
     \<Rightarrow> py_exception + string option" where
  "authenticate P st d a m cs =
     (case authenticate_entries P (auth_entries st) d a m cs of
        Some u \<Rightarrow> Inr (Some u)
      | None \<Rightarrow>
          if m = ''NULL'' \<and> startswith a ''localhost:'' then
            (let parts = tl (split_sep (CHR '':'') a) in
             case agent_user P d a parts of
               Inl e \<Rightarrow> Inl e
             | Inr (Some u) \<Rightarrow> Inr (Some u)
             | Inr None \<Rightarrow>
                 (case parts of
                    [] \<Rightarrow> Inl IndexError
                  | p0 # _ \<Rightarrow>
                      (case py_int p0 of
                         None \<Rightarrow> Inl ValueError
                       | Some uid \<Rightarrow>
                           if uid = getuid P then Inr (Some (synthesized_user P d a m cs))
                           else Inr (allow_any_user P st d a m cs))))
          else Inr (allow_any_user P st d a m cs))"

text \<open>
  The order invariant of the snapshot: no entry whose credentials are a pattern stands before
  an entry whose credentials are literal.
\<close>

definition cred_pattern :: "platform \<Rightarrow> auth_entry \<Rightarrow> bool" where
  "cred_pattern P e = (case credentials e of None \<Rightarrow> False | Some s \<Rightarrow> flagged_pattern P s)"

definition literal_first :: "platform \<Rightarrow> auth_entry list \<Rightarrow> bool" where
  "literal_first P es = sorted_wrt (\<lambda>x y. cred_pattern P x \<longrightarrow> cred_pattern P y) es"

text \<open>
  The connection tuple equals the fields of the entry, all of them literal: domain, address
  and mechanism are the stored ones and the first credential is the stored credential.
\<close>

definition equals_literal ::
  "platform \<Rightarrow> auth_entry \<Rightarrow> string \<Rightarrow> string \<Rightarrow> string \<Rightarrow> string list \<Rightarrow> bool" where
  "equals_literal P e d a m cs =
     (domain e = Some d \<and> \<not> flagged_pattern P d \<and>
      address e = Some a \<and> \<not> flagged_pattern P a \<and>
      mechanism e = m \<and>
      (case cs of [] \<Rightarrow> False | x # _ \<Rightarrow> credentials e = Some x \<and> \<not> flagged_pattern P x))"

text \<open>
  The address embeds no process id (fewer than three components after \<^verbatim>\<open>localhost\<close>), or
  embeds one that converts to an integer for which no agent is known.
\<close>

definition no_agent :: "platform \<Rightarrow> string list \<Rightarrow> bool" where
  "no_agent P parts =
     (length parts \<le> 2 \<or>
      (case py_int (parts ! 2) of
         None \<Rightarrow> False
       | Some pid \<Rightarrow> \<not> truthy (agent_uuid_from_pid P pid)))"

section \<open>An example platform\<close>

text \<open>
  A concrete platform for the closed examples: user ids are the fields joined by commas, the
  only pattern is \<^verbatim>\<open>/.*/\<close> (it matches every string), process 77 is the one known agent and
  the service runs as user 1000.
\<close>

fun join_commas :: "string list \<Rightarrow> string" where
  "join_commas [] = []"
| "join_commas [x] = x"
| "join_commas (x # y # zs) = x @ '','' @ join_commas (y # zs)"

definition example_platform :: platform where
  "example_platform =
     \<lparr>dump_user = join_commas,
      flagged_pattern = (\<lambda>s. s = ''/.*/''),
      fullmatch = (\<lambda>p x. p = ''/.*/''),
      sort_entries = (\<lambda>es. filter (\<lambda>e. credentials e \<noteq> Some ''/.*/'') es
                          @ filter (\<lambda>e. credentials e = Some ''/.*/'') es),
      agent_uuid_from_pid = (\<lambda>pid. if pid = 77 then Some ''agent-77'' else None),
      getuid = 1000,
      PROCESS_IDENTITIES = [''platform.auth'', ''control''],
      CONTROL_CONNECTION = ''control.connection'',
      certs_value_error = (\<lambda>operation user. False)\<rparr>"

definition example_entry ::
  "string \<Rightarrow> string \<Rightarrow> string \<Rightarrow> string \<Rightarrow> string \<Rightarrow> string option \<Rightarrow> auth_entry" where
  "example_entry d a m c u i =
     \<lparr>domain = Some d, address = Some a, mechanism = m, credentials = Some c,
      user_id = Some u, identity = i, capabilities = [], groups = [], roles = [],
      rpc_method_authorizations = [], comments = None, enabled = True\<rparr>"

definition example_service :: "auth_entry list \<Rightarrow> auth_service" where
  "example_service es =
     \<lparr>allow_any = False, certs = False,
      the_auth_file = \<lparr>allow_entries = es, deny_entries = []\<rparr>,
      auth_entries = es, auth_pending = [], auth_denied = [], auth_approved = [],
      logged = []\<rparr>"

text \<open>An allow entry of the agent \<^verbatim>\<open>sensor1\<close> whose method \<^verbatim>\<open>get_point\<close> requires \<^verbatim>\<open>operator\<close>.\<close>

definition example_sensor :: auth_entry where
  "example_sensor =
     (example_entry ''vip'' ''10.0.0.7'' ''CURVE'' ''key'' ''sensor-user'' (Some ''sensor1''))
       \<lparr>rpc_method_authorizations := [(''get_point'', [''operator''])]\<rparr>"

section \<open>The pending queue\<close>

text \<open>The comparison of the four keys made by \<^verbatim>\<open>_update_auth_pending\<close> on a queue entry.\<close>

definition same_tuple :: "auth_record \<Rightarrow> string \<Rightarrow> string \<Rightarrow> string \<Rightarrow> string \<Rightarrow> bool" where
  "same_tuple entry d a m c =
     (domain entry = Some d \<and> address entry = Some a \<and> mechanism entry = m \<and>
      credentials entry = Some c)"

text \<open>
  One of the two loops of \<^verbatim>\<open>_update_auth_pending\<close>: the first entry with the four keys gets
  \<^verbatim>\<open>entry["retries"] += 1\<close> and the method returns; \<open>None\<close> when the loop ends without a hit.
\<close>

fun increment_retries ::
  "string \<Rightarrow> string \<Rightarrow> string \<Rightarrow> string \<Rightarrow> auth_record list \<Rightarrow> auth_record list option" where
  "increment_retries d a m c [] = None"
| "increment_retries d a m c (entry # rest) =
     (if same_tuple entry d a m c then Some (entry\<lparr>retries := retries entry + 1\<rparr> # rest)
      else map_option ((#) entry) (increment_retries d a m c rest))"

text \<open>\<^verbatim>\<open>AuthService._update_auth_pending(domain, address, mechanism, credential, user_id)\<close>\<close>

definition update_auth_pending ::
  "auth_service \<Rightarrow> string \<Rightarrow> string \<Rightarrow> string \<Rightarrow> string \<Rightarrow> string \<Rightarrow> auth_service" where
  "update_auth_pending st d a m c u =
     (case increment_retries d a m c (auth_denied st) of
        Some denied \<Rightarrow> st\<lparr>auth_denied := denied\<rparr>
      | None \<Rightarrow>
          (case increment_retries d a m c (auth_pending st) of
             Some pending \<Rightarrow> st\<lparr>auth_pending := pending\<rparr>
           | None \<Rightarrow>
               st\<lparr>auth_pending := auth_pending st @
                    [\<lparr>domain = Some d, address = Some a, mechanism = m, credentials = Some c,
                      user_id = Some u, retries = 1\<rparr>]\<rparr>))"

section \<open>Per-method authorizations in the auth file\<close>

text \<open>
  What an exported method hands back to its caller: every path of the two methods below ends
  in a bare \<^verbatim>\<open>return\<close> (the value \<^verbatim>\<open>None\<close>), unless a call into the store raises.
\<close>

datatype py_return = ReturnsNone | Raises py_exception

text \<open>
  Modelled from the spec: \<^verbatim>\<open>AuthFile.update_by_index\<close> is not part of the sources at hand. The
  store's \<^verbatim>\<open>updateByIndex(entry, index, isAllow)\<close> replaces the entry at the index of the allow
  list or of the deny list; an index outside the list is an error of the store.
\<close>

definition update_by_index ::
  "auth_entry \<Rightarrow> nat \<Rightarrow> bool \<Rightarrow> auth_file \<Rightarrow> py_exception + auth_file" where
  "update_by_index entry index is_allow f =
     (if is_allow then
        (if index < length (allow_entries f)
         then Inr (f\<lparr>allow_entries := (allow_entries f)[index := entry]\<rparr>)
         else Inl AuthException)
      else
        (if index < length (deny_entries f)
         then Inr (f\<lparr>deny_entries := (deny_entries f)[index := entry]\<rparr>)
         else Inl AuthException))"

text \<open>
  The loop \<^verbatim>\<open>for entry in entries: if entry.identity == identity\<close>: the first entry with the
  identity, with its position, which is what \<^verbatim>\<open>entries.index(entry)\<close> gives for an entry of
  the copied list.
\<close>

fun find_identity :: "string \<Rightarrow> auth_entry list \<Rightarrow> (nat \<times> auth_entry) option" where
  "find_identity ident [] = None"
| "find_identity ident (entry # rest) =
     (if identity entry = Some ident then Some (0, entry)
      else map_option (\<lambda>(i, e). (Suc i, e)) (find_identity ident rest))"

definition privileged :: "platform \<Rightarrow> string \<Rightarrow> bool" where
  "privileged P ident = (ident \<in> set (PROCESS_IDENTITIES P) \<or> ident = CONTROL_CONNECTION P)"

definition log_error :: "auth_service \<Rightarrow> string \<Rightarrow> auth_service" where
  "log_error st msg = st\<lparr>logged := logged st @ [LogError msg]\<rparr>"

text \<open>The three branches on \<^verbatim>\<open>entry.rpc_method_authorizations[method]\<close> of \<^verbatim>\<open>add_rpc_authorizations\<close>.\<close>

definition add_authorizations ::
  "(string \<times> string list) list \<Rightarrow> string \<Rightarrow> string list \<Rightarrow> (string \<times> string list) list" where
  "add_authorizations auths method authorizations =
     (case map_of auths method of
        None \<Rightarrow> AList.update method authorizations auths
      | Some current \<Rightarrow>
          if current = [] then AList.update method authorizations auths
          else AList.update method
                 (current @ filter (\<lambda>rpc_auth. rpc_auth \<in> set authorizations \<and>
                                               rpc_auth \<notin> set current) authorizations)
                 auths)"

text \<open>\<^verbatim>\<open>AuthService.add_rpc_authorizations(identity, method, authorizations)\<close>\<close>

definition add_rpc_authorizations ::
  "platform \<Rightarrow> auth_service \<Rightarrow> string \<Rightarrow> string \<Rightarrow> string list \<Rightarrow> py_return \<times> auth_service" where
  "add_rpc_authorizations P st ident method authorizations =
     (if privileged P ident then
        (ReturnsNone, log_error st (ident @ '' cannot be modified using this command!''))
      else
        (case find_identity ident (allow_entries (the_auth_file st)) of
           Some (index, entry) \<Rightarrow>
             (case update_by_index
                     (entry\<lparr>rpc_method_authorizations :=
                        add_authorizations (rpc_method_authorizations entry) method
                          authorizations\<rparr>)
                     index True (the_auth_file st) of
                Inl e \<Rightarrow> (Raises e, st)
              | Inr f \<Rightarrow> (ReturnsNone, st\<lparr>the_auth_file := f\<rparr>))
         | None \<Rightarrow> (ReturnsNone, log_error st ''Agent identity not found in auth file!'')))"

text \<open>
  The messages of the loop over \<^verbatim>\<open>denied_authorizations\<close>: one for each requested capability
  that is not in the method's list.
\<close>

definition not_authorized_messages :: "string list \<Rightarrow> string \<Rightarrow> string list \<Rightarrow> log_record list" where
  "not_authorized_messages current method denied_authorizations =
     map (\<lambda>rpc_auth. LogError (rpc_auth @ '' is not an authorized capability for '' @ method))
       (filter (\<lambda>rpc_auth. rpc_auth \<notin> set current) denied_authorizations)"

text \<open>The list stored when some requested capability matched: the sentinel when nothing is left.\<close>

definition remaining_authorizations :: "string list \<Rightarrow> string list \<Rightarrow> string list" where
  "remaining_authorizations current denied_authorizations =
     (let kept = filter (\<lambda>rpc_auth. rpc_auth \<notin> set denied_authorizations) current
      in if kept = [] then [''''] else kept)"

text \<open>\<^verbatim>\<open>AuthService.delete_rpc_authorizations(identity, method, denied_authorizations)\<close>\<close>

definition delete_rpc_authorizations ::
  "platform \<Rightarrow> auth_service \<Rightarrow> string \<Rightarrow> string \<Rightarrow> string list \<Rightarrow> py_return \<times> auth_service" where
  "delete_rpc_authorizations P st ident method denied_authorizations =
     (if privileged P ident then
        (ReturnsNone, log_error st (ident @ '' cannot be modified using this command!''))
      else
        (case find_identity ident (allow_entries (the_auth_file st)) of
           Some (index, entry) \<Rightarrow>
             (case map_of (rpc_method_authorizations entry) method of
                None \<Rightarrow>
                  (ReturnsNone,
                   log_error st (ident @ '' does not have a method called '' @ method))
              | Some current \<Rightarrow>
                  if current = [] then
                    (ReturnsNone,
                     log_error st (ident @ ''.'' @ method @
                       '' does not have any authorized capabilities.''))
                  else
                    (let st1 = st\<lparr>logged := logged st @
                                 not_authorized_messages current method denied_authorizations\<rparr>
                     in if \<exists>rpc_auth\<in>set denied_authorizations. rpc_auth \<in> set current then
                          (case update_by_index
                                  (entry\<lparr>rpc_method_authorizations :=
                                     AList.update method
                                       (remaining_authorizations current denied_authorizations)
                                       (rpc_method_authorizations entry)\<rparr>)
                                  index True (the_auth_file st) of
                             Inl e \<Rightarrow> (Raises e, st1)
                           | Inr f \<Rightarrow> (ReturnsNone, st1\<lparr>the_auth_file := f\<rparr>))
                        else
                          (ReturnsNone,
                           log_error st1
                             (''No matching authorized capabilities provided for '' @ method))))
         | None \<Rightarrow> (ReturnsNone, log_error st ''Agent identity not found in auth file!'')))"

text \<open>
  The capability list stored in the auth file for a method of the first allow entry with the
  identity; \<open>None\<close> when there is no such entry or the method is not a key of its dictionary.
\<close>

definition method_authorizations :: "auth_service \<Rightarrow> string \<Rightarrow> string \<Rightarrow> string list option" where
  "method_authorizations st ident method =
     (case find_identity ident (allow_entries (the_auth_file st)) of
        None \<Rightarrow> None
      | Some (index, entry) \<Rightarrow> map_of (rpc_method_authorizations entry) method)"

section \<open>Pushing method authorizations to the agents\<close>

text \<open>
  What \<^verbatim>\<open>update_rpc_authorizations\<close> does to the outside, in order: the call of
  \<^verbatim>\<open>auth.set_multiple_rpc_authorizations\<close> on a peer with a dictionary, the call of
  \<^verbatim>\<open>auth.set_rpc_authorizations\<close> on a peer with one method and its capabilities, and a message
  given to \<^verbatim>\<open>_log.error\<close>.
\<close>

datatype rpc_event =
    BulkCall string "(string \<times> string list) list"
  | SingleCall string string "string list"
  | Logged string

text \<open>
  How the guarded call ends: it returns, or it raises. The transport is not part of the sources
  at hand: it is a parameter that gives the end of each call.
\<close>

datatype rpc_outcome = Returned | Raised py_exception

type_synonym transport = "rpc_event \<Rightarrow> rpc_outcome"

definition timed_out_message :: "string \<Rightarrow> string" where
  "timed_out_message ident =
     ident @ '' has timed out while attempting to update rpc_method_authorizations''"

text \<open>
  The loop that collects \<^verbatim>\<open>modified_methods\<close>: the keys of the entry's dictionary in order,
  without those whose capability list is empty. (A key of the dictionary always has a value.)
\<close>

definition modified_methods :: "(string \<times> string list) list \<Rightarrow> (string \<times> string list) list" where
  "modified_methods auths =
     foldl (\<lambda>modified method.
              case map_of auths method of
                None \<Rightarrow> modified
              | Some caps \<Rightarrow> if caps = [] then modified else AList.update method caps modified)
       [] (map fst auths)"

text \<open>
  The loop \<^verbatim>\<open>for method in modified_methods\<close> taken after a \<^verbatim>\<open>RemoteError\<close>: one call for each
  method, with the two handlers; any other exception leaves the method.
\<close>

fun set_rpc_authorizations_each ::
  "transport \<Rightarrow> string \<Rightarrow> (string \<times> string list) list \<Rightarrow> string list \<Rightarrow> rpc_event list
     \<Rightarrow> py_exception option \<times> rpc_event list" where
  "set_rpc_authorizations_each T ident auths [] tr = (None, tr)"
| "set_rpc_authorizations_each T ident auths (method # rest) tr =
     (case map_of auths method of
        None \<Rightarrow> (Some KeyError, tr)
      | Some caps \<Rightarrow>
          (case T (SingleCall ident method caps) of
             Returned \<Rightarrow>
               set_rpc_authorizations_each T ident auths rest
                 (tr @ [SingleCall ident method caps])
           | Raised e \<Rightarrow>
               if e = Timeout then
                 set_rpc_authorizations_each T ident auths rest
                   (tr @ [SingleCall ident method caps, Logged (timed_out_message ident)])
               else if e = RemoteError then
                 set_rpc_authorizations_each T ident auths rest
                   (tr @ [SingleCall ident method caps,
                          Logged (''Method '' @ method @ '' does not exist.'')])
               else (Some e, tr @ [SingleCall ident method caps])))"

text \<open>The body of the loop of \<^verbatim>\<open>update_rpc_authorizations\<close> for one entry.\<close>

definition update_entry_rpc_authorizations ::
  "platform \<Rightarrow> transport \<Rightarrow> auth_entry \<Rightarrow> rpc_event list
     \<Rightarrow> py_exception option \<times> rpc_event list" where
  "update_entry_rpc_authorizations P T entry tr =
     (case identity entry of
        None \<Rightarrow> (None, tr)
      | Some ident \<Rightarrow>
          if privileged P ident then (None, tr)
          else
            (let modified = modified_methods (rpc_method_authorizations entry) in
             if modified = [] then (None, tr)
             else
               (case T (BulkCall ident modified) of
                  Returned \<Rightarrow> (None, tr @ [BulkCall ident modified])
                | Raised e \<Rightarrow>
                    if e = Timeout then
                      (None, tr @ [BulkCall ident modified, Logged (timed_out_message ident)])
                    else if e = RemoteError then
                      set_rpc_authorizations_each T ident (rpc_method_authorizations entry)
                        (map fst modified) (tr @ [BulkCall ident modified])
                    else (Some e, tr @ [BulkCall ident modified]))))"

text \<open>
  \<^verbatim>\<open>AuthService.update_rpc_authorizations(entries)\<close>: the exception that leaves the method, if
  any, and the events so far.
\<close>

fun update_rpc_authorizations ::
  "platform \<Rightarrow> transport \<Rightarrow> auth_entry list \<Rightarrow> rpc_event list
     \<Rightarrow> py_exception option \<times> rpc_event list" where
  "update_rpc_authorizations P T [] tr = (None, tr)"
| "update_rpc_authorizations P T (entry # rest) tr =
     (case update_entry_rpc_authorizations P T entry tr of
        (Some e, tr') \<Rightarrow> (Some e, tr')
      | (None, tr') \<Rightarrow> update_rpc_authorizations P T rest tr')"

text \<open>
  Equality of two dictionaries (the order of the keys does not count), for association lists
  with distinct keys.
\<close>

definition dict_eq :: "(string \<times> string list) list \<Rightarrow> (string \<times> string list) list \<Rightarrow> bool" where
  "dict_eq x y = (set x = set y)"

text \<open>What \<^verbatim>\<open>_get_updated_entries\<close> appends to \<^verbatim>\<open>modified_entries\<close> for one new entry.\<close>

definition updated_entry :: "platform \<Rightarrow> auth_entry list \<Rightarrow> auth_entry \<Rightarrow> auth_entry list" where
  "updated_entry P old_entries entry =
     (case identity entry of
        None \<Rightarrow> []
      | Some ident \<Rightarrow>
          if privileged P ident then []
          else
            map (\<lambda>old_entry. entry)
              (filter (\<lambda>old_entry. identity old_entry = Some ident \<and>
                   \<not> dict_eq (rpc_method_authorizations entry)
                            (rpc_method_authorizations old_entry)) old_entries)
            @ (if Some ident \<notin> set (map identity old_entries) then [entry] else []))"

text \<open>\<^verbatim>\<open>AuthService._get_updated_entries(old_entries, new_entries)\<close>\<close>

definition get_updated_entries ::
  "platform \<Rightarrow> auth_entry list \<Rightarrow> auth_entry list \<Rightarrow> auth_entry list" where
  "get_updated_entries P old_entries new_entries =
     concat (map (updated_entry P old_entries) new_entries)"

text \<open>
  The push that the spec asks for one identity of the diff: the methods whose required
  capabilities are not empty, in one call, and no call when there is no such method.
\<close>

definition required_methods :: "auth_entry \<Rightarrow> (string \<times> string list) list" where
  "required_methods entry =
     filter (\<lambda>(method, caps). caps \<noteq> []) (rpc_method_authorizations entry)"

definition expected_push :: "auth_entry \<Rightarrow> rpc_event list" where
  "expected_push entry =
     (case identity entry of
        None \<Rightarrow> []
      | Some ident \<Rightarrow>
          if required_methods entry = [] then []
          else [BulkCall ident (required_methods entry)])"

definition bulk_calls :: "rpc_event list \<Rightarrow> rpc_event list" where
  "bulk_calls tr = filter (\<lambda>ev. case ev of BulkCall peer methods \<Rightarrow> True | _ \<Rightarrow> False) tr"

text \<open>
  What a peer does with a call: it answers with a result, it rejects the call with an error
  (the call names a method that it does not export), or it gives no answer in time.
\<close>

datatype peer_answer = Accepted | Rejected | Unanswered

text \<open>
  The futures of the transport (gevent's \<^verbatim>\<open>AsyncResult\<close>, outside the sources at hand):
  \<^verbatim>\<open>rpc.call\<close> hands back a future at once. \<^verbatim>\<open>future.wait(timeout)\<close> blocks until the answer is
  there or the time is over and then returns; it raises neither the error that the peer
  answered with nor a time-out (\<^verbatim>\<open>future.get\<close> would raise them).
\<close>

definition future_wait :: "peer_answer \<Rightarrow> rpc_outcome" where
  "future_wait answer =
     (case answer of Accepted \<Rightarrow> Returned | Rejected \<Rightarrow> Returned | Unanswered \<Rightarrow> Returned)"

text \<open>
  The two call statements of \<^verbatim>\<open>update_rpc_authorizations\<close> over such a transport: the bulk
  call is \<^verbatim>\<open>rpc.call(...).wait(timeout=4)\<close>; the call for one method is \<^verbatim>\<open>rpc.call(...)\<close>
  alone, whose future is dropped, so that the statement ends before the peer has answered.
\<close>

definition call_statements :: "(rpc_event \<Rightarrow> peer_answer) \<Rightarrow> transport" where
  "call_statements peer ev =
     (case ev of
        BulkCall ident methods \<Rightarrow> future_wait (peer ev)
      | SingleCall ident method caps \<Rightarrow> Returned
      | Logged msg \<Rightarrow> Returned)"

text \<open>
  The agent \<^verbatim>\<open>sensor1\<close> with \<^verbatim>\<open>get_point\<close> requiring \<^verbatim>\<open>operator\<close> and \<^verbatim>\<open>set_point\<close> requiring
  nothing.
\<close>

definition example_sensor_two :: auth_entry where
  "example_sensor_two =
     (example_entry ''vip'' ''10.0.0.7'' ''CURVE'' ''key'' ''sensor-user'' (Some ''sensor1''))
       \<lparr>rpc_method_authorizations := [(''get_point'', [''operator'']), (''set_point'', [])]\<rparr>"

section \<open>Approving and deleting pending credentials\<close>

text \<open>
  Modelled from the spec: the class \<^verbatim>\<open>AuthFile\<close> is not part of the sources at hand. Its
  \<^verbatim>\<open>add(entry, overwrite, isAllow)\<close> keeps one entry for each credential key in the allow list
  or the deny list: an entry with the same credentials is replaced when \<^verbatim>\<open>overwrite\<close> holds and
  is an error of the store otherwise; a new entry goes to the end of the list.
\<close>

definition auth_file_add :: "auth_entry \<Rightarrow> bool \<Rightarrow> bool \<Rightarrow> auth_file \<Rightarrow> py_exception + auth_file" where
  "auth_file_add entry overwrite is_allow f =
     (let entries = (if is_allow then allow_entries f else deny_entries f);
          entries' =
            (if \<exists>e\<in>set entries. credentials e = credentials entry
             then map (\<lambda>e. if credentials e = credentials entry then entry else e) entries
             else entries @ [entry])
      in if (\<exists>e\<in>set entries. credentials e = credentials entry) \<and> \<not> overwrite
         then Inl AuthException
         else if is_allow then Inr (f\<lparr>allow_entries := entries'\<rparr>)
         else Inr (f\<lparr>deny_entries := entries'\<rparr>))"

text \<open>
  Modelled from the spec: \<^verbatim>\<open>removeByCredentials\<close> of the store removes the persisted entries
  with the credential key from the allow list or from the deny list.
\<close>

definition remove_by_credentials :: "string option \<Rightarrow> bool \<Rightarrow> auth_file \<Rightarrow> auth_file" where
  "remove_by_credentials credential is_allow f =
     (if is_allow
      then f\<lparr>allow_entries := filter (\<lambda>e. credentials e \<noteq> credential) (allow_entries f)\<rparr>
      else f\<lparr>deny_entries := filter (\<lambda>e. credentials e \<noteq> credential) (deny_entries f)\<rparr>)"

text \<open>
  Modelled from the spec: \<^verbatim>\<open>approveDenyCredential(userId, isApproved)\<close> of the store flips the
  persisted entries of the user id to allowed (they move from the deny list to the allow list)
  or to denied (they move the other way).
\<close>

definition approve_deny_credential :: "string \<Rightarrow> bool \<Rightarrow> auth_file \<Rightarrow> auth_file" where
  "approve_deny_credential user is_approved f =
     (if is_approved
      then \<lparr>allow_entries = allow_entries f @ filter (\<lambda>e. user_id e = Some user) (deny_entries f),
            deny_entries = filter (\<lambda>e. user_id e \<noteq> Some user) (deny_entries f)\<rparr>
      else \<lparr>allow_entries = filter (\<lambda>e. user_id e \<noteq> Some user) (allow_entries f),
            deny_entries = deny_entries f @ filter (\<lambda>e. user_id e = Some user) (allow_entries f)\<rparr>)"

text \<open>
  The entry built by \<^verbatim>\<open>_update_auth_entry\<close>: no groups, roles, capabilities or method
  authorizations, the marker comment, enabled.
\<close>

definition new_entry ::
  "string option \<Rightarrow> string option \<Rightarrow> string \<Rightarrow> string option \<Rightarrow> string option \<Rightarrow> auth_entry" where
  "new_entry d a m c u =
     \<lparr>domain = d, address = a, mechanism = m, credentials = c, user_id = u,
      identity = None, capabilities = [], groups = [], roles = [],
      rpc_method_authorizations = [], comments = Some ''Auth entry added in setup mode'',
      enabled = True\<rparr>"

text \<open>\<^verbatim>\<open>AuthService._update_auth_entry\<close>: an error of the store is logged.\<close>

definition update_auth_entry ::
  "auth_service \<Rightarrow> string option \<Rightarrow> string option \<Rightarrow> string \<Rightarrow> string option \<Rightarrow> string option
     \<Rightarrow> bool \<Rightarrow> auth_service" where
  "update_auth_entry st d a m c u is_allow =
     (case auth_file_add (new_entry d a m c u) False is_allow (the_auth_file st) of
        Inl err \<Rightarrow> st\<lparr>logged := logged st @ [LogException err]\<rparr>
      | Inr f \<Rightarrow> st\<lparr>the_auth_file := f\<rparr>)"

text \<open>\<^verbatim>\<open>AuthService._remove_auth_entry\<close>\<close>

definition remove_auth_entry :: "auth_service \<Rightarrow> string option \<Rightarrow> bool \<Rightarrow> auth_service" where
  "remove_auth_entry st credential is_allow =
     st\<lparr>the_auth_file := remove_by_credentials credential is_allow (the_auth_file st)\<rparr>"

text \<open>
  The search \<^verbatim>\<open>for pending in self._auth_pending: if user_id == pending["user_id"]\<close>: the
  first record of the user id with its index.
\<close>

fun find_user :: "string \<Rightarrow> auth_record list \<Rightarrow> (nat \<times> auth_record) option" where
  "find_user user [] = None"
| "find_user user (pending # rest) =
     (if user_id pending = Some user then Some (0, pending)
      else map_option (\<lambda>(i, r). (Suc i, r)) (find_user user rest))"

text \<open>
  The first loop of \<^verbatim>\<open>approve_authorization_failure\<close>, which is also the first loop of
  \<^verbatim>\<open>delete_authorization_failure\<close>, with the \<^verbatim>\<open>del\<close> that follows it: the first pending record
  of the user id is handed to \<^verbatim>\<open>_update_auth_entry\<close> and leaves the queue. \<open>None\<close> when no
  record matched.
\<close>

definition promote_pending :: "auth_service \<Rightarrow> string \<Rightarrow> auth_service option" where
  "promote_pending st user =
     (case find_user user (auth_pending st) of
        None \<Rightarrow> None
      | Some (index, pending) \<Rightarrow>
          Some ((update_auth_entry st (domain pending) (address pending) (mechanism pending)
                   (credentials pending) (user_id pending) True)
                \<lparr>auth_pending := take index (auth_pending st) @
                                  drop (Suc index) (auth_pending st)\<rparr>))"

text \<open>The second loop of \<^verbatim>\<open>delete_authorization_failure\<close> with its \<^verbatim>\<open>del\<close>.\<close>

definition drop_pending :: "auth_service \<Rightarrow> string \<Rightarrow> auth_service option" where
  "drop_pending st user =
     (case find_user user (auth_pending st) of
        None \<Rightarrow> None
      | Some (index, pending) \<Rightarrow>
          Some (st\<lparr>auth_pending := take index (auth_pending st) @
                                   drop (Suc index) (auth_pending st)\<rparr>))"

definition of_user :: "string \<Rightarrow> auth_record list \<Rightarrow> auth_record list" where
  "of_user user records = filter (\<lambda>pending. user_id pending = Some user) records"

text \<open>
  \<^verbatim>\<open>AuthService.approve_authorization_failure(user_id)\<close>. The flag \<open>val_err\<close> says that the
  certificate block raised \<^verbatim>\<open>ValueError\<close> and no queue held the user id; it is logged at the end.
  (The block catches nothing but \<^verbatim>\<open>ValueError\<close>; what else the certificate subsystem may raise
  is outside this model.)
\<close>

definition approve_authorization_failure :: "platform \<Rightarrow> auth_service \<Rightarrow> string \<Rightarrow> auth_service" where
  "approve_authorization_failure P st user =
     (let val_err = (certs st \<and> certs_value_error P ''approve_csr'' user);
          st1 = (case promote_pending st user of None \<Rightarrow> st | Some s \<Rightarrow> s);
          val_err1 = (val_err \<and> promote_pending st user = None);
          st2 = foldl (\<lambda>s pending.
                         s\<lparr>the_auth_file := approve_deny_credential user True (the_auth_file s)\<rparr>)
                  st1 (of_user user (auth_denied st1));
          val_err2 = (val_err1 \<and> of_user user (auth_denied st1) = [])
      in if val_err2 then st2\<lparr>logged := logged st2 @ [LogException ValueError]\<rparr> else st2)"

text \<open>\<^verbatim>\<open>AuthService.delete_authorization_failure(user_id)\<close>\<close>

definition delete_authorization_failure :: "platform \<Rightarrow> auth_service \<Rightarrow> string \<Rightarrow> auth_service" where
  "delete_authorization_failure P st user =
     (let val_err = (certs st \<and> certs_value_error P ''delete_csr'' user);
          st1 = (case promote_pending st user of None \<Rightarrow> st | Some s \<Rightarrow> s);
          val_err1 = (val_err \<and> promote_pending st user = None);
          st2 = (case drop_pending st1 user of None \<Rightarrow> st1 | Some s \<Rightarrow> s);
          val_err2 = (val_err1 \<and> drop_pending st1 user = None);
          st3 = foldl (\<lambda>s pending. remove_auth_entry s (credentials pending) True)
                  st2 (of_user user (auth_approved st2));
          val_err3 = (val_err2 \<and> of_user user (auth_approved st2) = []);
          st4 = foldl (\<lambda>s pending. remove_auth_entry s (credentials pending) False)
                  st3 (of_user user (auth_denied st3));
          val_err4 = (val_err3 \<and> of_user user (auth_denied st3) = [])
      in if val_err4 then st4\<lparr>logged := logged st4 @ [LogException ValueError]\<rparr> else st4)"

text \<open>The dictionary that \<^verbatim>\<open>_update_auth_lists\<close> builds from an entry.\<close>

definition listed :: "auth_entry \<Rightarrow> auth_record" where
  "listed entry =
     \<lparr>domain = domain entry, address = address entry, mechanism = mechanism entry,
      credentials = credentials entry, user_id = user_id entry, retries = 0\<rparr>"

text \<open>
  \<^verbatim>\<open>AuthService._update_auth_lists(entries, is_allow)\<close>: the approved or the denied list is
  rebuilt from the entries that have an address.
\<close>

definition update_auth_lists :: "auth_service \<Rightarrow> auth_entry list \<Rightarrow> bool \<Rightarrow> auth_service" where
  "update_auth_lists st entries is_allow =
     (let auth_list = map listed entries;
          populated = filter (\<lambda>entry. address entry \<noteq> None) auth_list
      in if is_allow then st\<lparr>auth_approved := populated\<rparr>
         else st\<lparr>auth_denied := populated\<rparr>)"

text \<open>
  \<^verbatim>\<open>AuthService.read_auth_file\<close> while the service is not connected: nothing is sent to the
  peers, so the entries collected by \<^verbatim>\<open>_get_updated_entries\<close> are not used.
  \<^verbatim>\<open>auth_file.load()\<close> reads the persistent store, which is \<open>the_auth_file\<close> here.
\<close>

definition read_auth_file :: "platform \<Rightarrow> auth_service \<Rightarrow> auth_service" where
  "read_auth_file P st =
     (let entries = allow_entries (the_auth_file st);
          denied_entries = deny_entries (the_auth_file st);
          st1 = update_auth_lists st entries True;
          st2 = update_auth_lists st1 denied_entries False
      in st2\<lparr>auth_entries := sort_entries P (filter enabled entries)\<rparr>)"

text \<open>
  Approve, then Delete, each followed by the reload that rebuilds the approved and the denied
  list from the store.
\<close>

definition approve_reload_delete_reload :: "platform \<Rightarrow> auth_service \<Rightarrow> string \<Rightarrow> auth_service" where
  "approve_reload_delete_reload P st user =
     read_auth_file P
       (delete_authorization_failure P
          (read_auth_file P (approve_authorization_failure P st user)) user)"

text \<open>A pending record of the user \<^verbatim>\<open>u7\<close>, as \<^verbatim>\<open>_update_auth_pending\<close> creates it.\<close>

definition example_pending :: auth_record where
  "example_pending =
     \<lparr>domain = Some ''vip'', address = Some ''10.0.0.7'', mechanism = ''CURVE'',
      credentials = Some ''key7'', user_id = Some ''u7'', retries = 1\<rparr>"

text \<open>A service with nothing persisted and the one pending record of \<^verbatim>\<open>u7\<close>.\<close>

definition example_waiting :: auth_service where
  "example_waiting = (example_service [])\<lparr>auth_pending := [example_pending]\<rparr>"

section \<open>Properties of authentication\<close>

lemma authenticate_entries_no_match:
  "(authenticate_entries P es d a m cs = None) = (\<forall>e\<in>set es. \<not> match P e d a m cs)"
  by (induction es) auto

lemma authenticate_entries_first:
  assumes "\<forall>x\<in>set pre. \<not> match P x d a m cs" and "match P e d a m cs"
  shows "authenticate_entries P (pre @ e # post) d a m cs = Some (entry_user P e d a m cs)"
  using assms by (induction pre) auto

lemma equals_literal_match:
  assumes "equals_literal P e d a m cs"
  shows "match P e d a m cs"
  using assms
  by (auto simp: equals_literal_def match_def field_match_def credentials_match_def
      split: list.splits)

lemma equals_literal_not_pattern:
  assumes "equals_literal P e d a m cs"
  shows "\<not> cred_pattern P e"
  using assms by (auto simp: equals_literal_def cred_pattern_def split: list.splits)

lemma length_split_sep: "length (split_sep sep s) = Suc (length (filter (\<lambda>c. c = sep) s))"
  by (induction s) (auto split: list.splits)

lemma startswith_localhost_parts:
  assumes "startswith a ''localhost:''"
  shows "tl (split_sep (CHR '':'') a) \<noteq> []"
proof -
  from assms obtain n where "take n a = ''localhost:''"
    unfolding startswith_def by blast
  then have "CHR '':'' \<in> set (take n a)"
    by simp
  then have "CHR '':'' \<in> set a"
    using set_take_subset by fastforce
  then have "filter (\<lambda>c. c = CHR '':'') a \<noteq> []"
    by (simp add: filter_empty_conv)
  then have "2 \<le> length (split_sep (CHR '':'') a)"
    by (cases "filter (\<lambda>c. c = CHR '':'') a") (simp_all add: length_split_sep)
  then show ?thesis by (cases "split_sep (CHR '':'') a") auto
qed

text \<open>
  C10. \<^verbatim>\<open>authenticate\<close> is not total: when no entry matches, the mechanism is \<^verbatim>\<open>NULL\<close> and
  the address starts with \<^verbatim>\<open>localhost:\<close>, the call raises \<^verbatim>\<open>ValueError\<close> from the integer
  conversion as soon as the component it converts is not a decimal integer: the first
  component after \<^verbatim>\<open>localhost\<close> when there are at most two, the third one when there are more.
\<close>

theorem authenticate_raises_on_non_integer:
  assumes "\<forall>e\<in>set (auth_entries st). \<not> match P e d a ''NULL'' cs"
    and "startswith a ''localhost:''"
    and "parts = tl (split_sep (CHR '':'') a)"
    and "(length parts \<le> 2 \<and> py_int (hd parts) = None) \<or>
         (2 < length parts \<and> py_int (parts ! 2) = None)"
  shows "authenticate P st d a ''NULL'' cs = Inl ValueError"
proof -
  have none: "authenticate_entries P (auth_entries st) d a ''NULL'' cs = None"
    using assms(1) by (simp add: authenticate_entries_no_match)
  have ne: "parts \<noteq> []"
    using assms(2,3) startswith_localhost_parts by simp
  have split: "tl (split_sep (CHR '':'') a) = parts"
    using assms(3) by simp
  from assms(4) show ?thesis
  proof
    assume short: "length parts \<le> 2 \<and> py_int (hd parts) = None"
    then have "agent_user P d a parts = Inr None"
      by (simp add: agent_user_def)
    moreover obtain p0 rest where "parts = p0 # rest"
      using ne by (cases parts) auto
    ultimately show ?thesis
      using none short assms(2) by (simp add: authenticate_def split)
  next
    assume long: "2 < length parts \<and> py_int (parts ! 2) = None"
    then have "agent_user P d a parts = Inl ValueError"
      by (simp add: agent_user_def)
    then show ?thesis
      using none assms(2) by (simp add: authenticate_def split)
  qed
qed

theorem authenticate_raises_on_non_integer_witness:
  "authenticate example_platform (example_service []) ''vip'' ''localhost:abc'' ''NULL'' [''key'']
     = Inl ValueError \<and>
   authenticate example_platform (example_service []) ''vip'' ''localhost:1000:1000:x1''
     ''NULL'' [''key''] = Inl ValueError"
proof -
  have a: "tl (split_sep (CHR '':'') ''localhost:abc'') = [''abc'']" by simp
  have b: "tl (split_sep (CHR '':'') ''localhost:1000:1000:x1'')
             = [''1000'', ''1000'', ''x1'']" by simp
  have na: "py_int ''abc'' = None"
    by (simp add: py_int_def py_strip_def py_space_def py_digit_def)
  have nb: "py_int ''x1'' = None"
    by (simp add: py_int_def py_strip_def py_space_def py_digit_def)
  have e: "auth_entries (example_service []) = []"
    by (simp add: example_service_def)
  have "authenticate example_platform (example_service []) ''vip'' ''localhost:abc'' ''NULL''
          [''key''] = Inl ValueError"
    using authenticate_raises_on_non_integer
      [of "example_service []" example_platform "''vip''" "''localhost:abc''" "[''key'']"
        "[''abc'']"]
    by (simp add: e a na startswith_def)
  moreover have "authenticate example_platform (example_service []) ''vip''
          ''localhost:1000:1000:x1'' ''NULL'' [''key''] = Inl ValueError"
    using authenticate_raises_on_non_integer
      [of "example_service []" example_platform "''vip''" "''localhost:1000:1000:x1''"
        "[''key'']" "[''1000'', ''1000'', ''x1'']"]
    by (simp add: e b nb startswith_def)
  ultimately show ?thesis by simp
qed

text \<open>
  C2 (as the code has it). When no entry matches, \<^verbatim>\<open>authenticate\<close> follows this chain. The
  first two steps are taken only when the mechanism is \<^verbatim>\<open>NULL\<close> and the address starts with
  \<^verbatim>\<open>localhost:\<close>: (a) the third component converts to a process id of a known agent: the
  user id is \<^verbatim>\<open>dump_user(domain, address, "AGENT", agent_uuid)\<close>; (b) otherwise the first
  component converts to the service's own user id: the user id is synthesized from the tuple.
  (c) In every other case that raises nothing, the allow-any flag gives the synthesized user id,
  and (d) without the flag the result is \<^verbatim>\<open>None\<close>. (e) A component that does not convert
  raises \<^verbatim>\<open>ValueError\<close>.
\<close>

theorem authenticate_fallback_chain:
  assumes "\<forall>e\<in>set (auth_entries st). \<not> match P e d a m cs"
    and "parts = tl (split_sep (CHR '':'') a)"
  shows
    "(m = ''NULL'' \<and> startswith a ''localhost:'' \<and> 2 < length parts \<and>
      py_int (parts ! 2) = Some pid \<and> agent_uuid_from_pid P pid = Some u \<and> u \<noteq> []
        \<longrightarrow> authenticate P st d a m cs = Inr (Some (dump_user P [d, a, ''AGENT'', u]))) \<and>
     (m = ''NULL'' \<and> startswith a ''localhost:'' \<and> no_agent P parts \<and>
      py_int (hd parts) = Some (getuid P)
        \<longrightarrow> authenticate P st d a m cs = Inr (Some (synthesized_user P d a m cs))) \<and>
     ((m \<noteq> ''NULL'' \<or> \<not> startswith a ''localhost:'' \<or>
       (no_agent P parts \<and> py_int (hd parts) = Some uid \<and> uid \<noteq> getuid P)) \<and> allow_any st
        \<longrightarrow> authenticate P st d a m cs = Inr (Some (synthesized_user P d a m cs))) \<and>
     ((m \<noteq> ''NULL'' \<or> \<not> startswith a ''localhost:'' \<or>
       (no_agent P parts \<and> py_int (hd parts) = Some uid \<and> uid \<noteq> getuid P)) \<and> \<not> allow_any st
        \<longrightarrow> authenticate P st d a m cs = Inr None) \<and>
     (m = ''NULL'' \<and> startswith a ''localhost:'' \<and>
      ((2 < length parts \<and> py_int (parts ! 2) = None) \<or>
       (no_agent P parts \<and> py_int (hd parts) = None))
        \<longrightarrow> authenticate P st d a m cs = Inl ValueError)"
proof -
  have none: "authenticate_entries P (auth_entries st) d a m cs = None"
    using assms(1) by (simp add: authenticate_entries_no_match)
  have split: "tl (split_sep (CHR '':'') a) = parts"
    using assms(2) by simp
  have not_local: "authenticate P st d a m cs = Inr (allow_any_user P st d a m cs)"
    if "m \<noteq> ''NULL'' \<or> \<not> startswith a ''localhost:''"
    using that none by (auto simp: authenticate_def)
  have no_agent_user: "agent_user P d a parts = Inr None" if "no_agent P parts"
    using that by (auto simp: no_agent_def agent_user_def truthy_def split: option.splits)
  have local: "authenticate P st d a m cs =
      (case py_int (hd parts) of
         None \<Rightarrow> Inl ValueError
       | Some i \<Rightarrow> if i = getuid P then Inr (Some (synthesized_user P d a m cs))
                   else Inr (allow_any_user P st d a m cs))"
    if "m = ''NULL''" "startswith a ''localhost:''" "no_agent P parts"
  proof -
    from that(2) split have "parts \<noteq> []"
      using startswith_localhost_parts by auto
    then obtain p0 rest where "parts = p0 # rest"
      by (cases parts) auto
    then show ?thesis
      using that none no_agent_user [OF that(3)]
      by (cases "py_int p0") (simp_all add: authenticate_def split)
  qed
  have a: "authenticate P st d a m cs = Inr (Some (dump_user P [d, a, ''AGENT'', u]))"
    if "m = ''NULL''" "startswith a ''localhost:''" "2 < length parts"
      "py_int (parts ! 2) = Some pid" "agent_uuid_from_pid P pid = Some u" "u \<noteq> []"
  proof -
    have "agent_user P d a parts = Inr (Some (dump_user P [d, a, ''AGENT'', u]))"
      using that by (simp add: agent_user_def)
    then show ?thesis
      using that(1,2) none by (simp add: authenticate_def split)
  qed
  have e: "authenticate P st d a m cs = Inl ValueError"
    if "m = ''NULL''" "startswith a ''localhost:''" "2 < length parts"
      "py_int (parts ! 2) = None"
  proof -
    have "agent_user P d a parts = Inl ValueError"
      using that by (simp add: agent_user_def)
    then show ?thesis
      using that(1,2) none by (simp add: authenticate_def split)
  qed
  have b: "authenticate P st d a m cs = Inr (Some (synthesized_user P d a m cs))"
    if "m = ''NULL''" "startswith a ''localhost:''" "no_agent P parts"
      "py_int (hd parts) = Some (getuid P)"
    using local [OF that(1,2,3)] that(4) by simp
  have e': "authenticate P st d a m cs = Inl ValueError"
    if "m = ''NULL''" "startswith a ''localhost:''" "no_agent P parts"
      "py_int (hd parts) = None"
    using local [OF that(1,2,3)] that(4) by simp
  have cd: "authenticate P st d a m cs = Inr (allow_any_user P st d a m cs)"
    if "m \<noteq> ''NULL'' \<or> \<not> startswith a ''localhost:'' \<or>
       (no_agent P parts \<and> py_int (hd parts) = Some uid \<and> uid \<noteq> getuid P)"
  proof (cases "m = ''NULL'' \<and> startswith a ''localhost:''")
    case True
    with that have "no_agent P parts" "py_int (hd parts) = Some uid" "uid \<noteq> getuid P"
      by auto
    then show ?thesis using local [of] True by simp
  next
    case False
    then show ?thesis by (simp add: not_local)
  qed
  have c: "authenticate P st d a m cs = Inr (Some (synthesized_user P d a m cs))"
    if "m \<noteq> ''NULL'' \<or> \<not> startswith a ''localhost:'' \<or>
       (no_agent P parts \<and> py_int (hd parts) = Some uid \<and> uid \<noteq> getuid P)" "allow_any st"
    using cd [OF that(1)] that(2) by (simp add: allow_any_user_def)
  have d: "authenticate P st d a m cs = Inr None"
    if "m \<noteq> ''NULL'' \<or> \<not> startswith a ''localhost:'' \<or>
       (no_agent P parts \<and> py_int (hd parts) = Some uid \<and> uid \<noteq> getuid P)" "\<not> allow_any st"
    using cd [OF that(1)] that(2) by (simp add: allow_any_user_def)
  show ?thesis
  proof (intro conjI impI)
    assume "m = ''NULL'' \<and> startswith a ''localhost:'' \<and> 2 < length parts \<and>
      py_int (parts ! 2) = Some pid \<and> agent_uuid_from_pid P pid = Some u \<and> u \<noteq> []"
    then show "authenticate P st d a m cs = Inr (Some (dump_user P [d, a, ''AGENT'', u]))"
      by (elim conjE) (rule a)
  next
    assume "m = ''NULL'' \<and> startswith a ''localhost:'' \<and> no_agent P parts \<and>
      py_int (hd parts) = Some (getuid P)"
    then show "authenticate P st d a m cs = Inr (Some (synthesized_user P d a m cs))"
      by (elim conjE) (rule b)
  next
    assume "(m \<noteq> ''NULL'' \<or> \<not> startswith a ''localhost:'' \<or>
       (no_agent P parts \<and> py_int (hd parts) = Some uid \<and> uid \<noteq> getuid P)) \<and> allow_any st"
    then show "authenticate P st d a m cs = Inr (Some (synthesized_user P d a m cs))"
      by (elim conjE) (rule c)
  next
    assume "(m \<noteq> ''NULL'' \<or> \<not> startswith a ''localhost:'' \<or>
       (no_agent P parts \<and> py_int (hd parts) = Some uid \<and> uid \<noteq> getuid P)) \<and> \<not> allow_any st"
    then show "authenticate P st d a m cs = Inr None"
      by (elim conjE) (rule d)
  next
    assume h: "m = ''NULL'' \<and> startswith a ''localhost:'' \<and>
      ((2 < length parts \<and> py_int (parts ! 2) = None) \<or>
       (no_agent P parts \<and> py_int (hd parts) = None))"
    then have "(2 < length parts \<and> py_int (parts ! 2) = None) \<or>
       (no_agent P parts \<and> py_int (hd parts) = None)"
      by (elim conjE)
    then show "authenticate P st d a m cs = Inl ValueError"
    proof
      assume "2 < length parts \<and> py_int (parts ! 2) = None"
      with h show ?thesis by (elim conjE) (rule e)
    next
      assume "no_agent P parts \<and> py_int (hd parts) = None"
      with h show ?thesis by (elim conjE) (rule e')
    qed
  qed
qed

theorem authenticate_fallback_chain_witness:
  "authenticate example_platform (example_service []) ''vip'' ''localhost:9999:5:77''
     ''NULL'' [''key''] = Inr (Some ''vip,localhost:9999:5:77,AGENT,agent-77'') \<and>
   authenticate example_platform (example_service []) ''vip'' ''localhost:1000:5:6''
     ''NULL'' [''key''] = Inr (Some ''vip,localhost:1000:5:6,NULL,key'') \<and>
   authenticate example_platform ((example_service [])\<lparr>allow_any := True\<rparr>) ''vip''
     ''localhost:9999:5:6'' ''NULL'' [''key''] = Inr (Some ''vip,localhost:9999:5:6,NULL,key'') \<and>
   authenticate example_platform (example_service []) ''vip'' ''localhost:9999:5:6''
     ''NULL'' [''key''] = Inr None \<and>
   authenticate example_platform (example_service []) ''vip'' ''localhost:me''
     ''NULL'' [''key''] = Inl ValueError"
proof -
  have ints: "py_int ''77'' = Some 77" "py_int ''6'' = Some 6" "py_int ''9999'' = Some 9999"
    "py_int ''1000'' = Some 1000" "py_int ''me'' = None"
    by (simp_all add: py_int_def py_strip_def py_space_def py_digit_def)
  have ex: "auth_entries (example_service []) = []"
    "auth_entries ((example_service [])\<lparr>allow_any := True\<rparr>) = []"
    "\<not> allow_any (example_service [])"
    "allow_any ((example_service [])\<lparr>allow_any := True\<rparr>)"
    "getuid example_platform = 1000"
    "agent_uuid_from_pid example_platform 77 = Some ''agent-77''"
    "agent_uuid_from_pid example_platform 6 = None"
    "dump_user example_platform = join_commas"
    by (simp_all add: example_service_def example_platform_def)
  have c1: "authenticate example_platform (example_service []) ''vip'' ''localhost:9999:5:77''
     ''NULL'' [''key''] = Inr (Some ''vip,localhost:9999:5:77,AGENT,agent-77'')"
    using authenticate_fallback_chain
      [of "example_service []" example_platform "''vip''" "''localhost:9999:5:77''" "''NULL''"
        "[''key'']" "[''9999'', ''5'', ''77'']" 77 "''agent-77''" 0]
    by (simp add: ints ex startswith_def)
  have c2: "authenticate example_platform (example_service []) ''vip'' ''localhost:1000:5:6''
     ''NULL'' [''key''] = Inr (Some ''vip,localhost:1000:5:6,NULL,key'')"
    using authenticate_fallback_chain
      [of "example_service []" example_platform "''vip''" "''localhost:1000:5:6''" "''NULL''"
        "[''key'']" "[''1000'', ''5'', ''6'']" 0 "[]" 0]
    by (simp add: ints ex startswith_def no_agent_def truthy_def synthesized_user_def)
  have c3: "authenticate example_platform ((example_service [])\<lparr>allow_any := True\<rparr>) ''vip''
     ''localhost:9999:5:6'' ''NULL'' [''key''] = Inr (Some ''vip,localhost:9999:5:6,NULL,key'')"
    using authenticate_fallback_chain
      [of "(example_service [])\<lparr>allow_any := True\<rparr>" example_platform "''vip''"
        "''localhost:9999:5:6''" "''NULL''"
        "[''key'']" "[''9999'', ''5'', ''6'']" 0 "[]" 9999]
    by (simp add: ints ex startswith_def no_agent_def truthy_def synthesized_user_def)
  have c4: "authenticate example_platform (example_service []) ''vip'' ''localhost:9999:5:6''
     ''NULL'' [''key''] = Inr None"
    using authenticate_fallback_chain
      [of "example_service []" example_platform "''vip''"
        "''localhost:9999:5:6''" "''NULL''"
        "[''key'']" "[''9999'', ''5'', ''6'']" 0 "[]" 9999]
    by (simp add: ints ex startswith_def no_agent_def truthy_def)
  have c5: "authenticate example_platform (example_service []) ''vip'' ''localhost:me''
     ''NULL'' [''key''] = Inl ValueError"
    using authenticate_fallback_chain
      [of "example_service []" example_platform "''vip''"
        "''localhost:me''" "''NULL''"
        "[''key'']" "[''me'']" 0 "[]" 0]
    by (simp add: ints ex startswith_def no_agent_def)
  show ?thesis using c1 c2 c3 c4 c5 by simp
qed

text \<open>
  The chain as the claim words it fails for a mechanism other than \<^verbatim>\<open>NULL\<close>: the address
  \<^verbatim>\<open>localhost:1000\<close> encodes the service's own user id 1000, no entry matches, and with the
  mechanism \<^verbatim>\<open>CURVE\<close> and no allow-any flag the call returns \<^verbatim>\<open>None\<close>.
\<close>

theorem authenticate_own_uid_counterexample:
  "py_int (hd (tl (split_sep (CHR '':'') ''localhost:1000''))) = Some (getuid example_platform) \<and>
   auth_entries (example_service []) = [] \<and>
   authenticate example_platform (example_service []) ''vip'' ''localhost:1000'' ''CURVE''
     [''key''] = Inr None"
  by (simp add: py_int_def py_strip_def py_space_def py_digit_def example_platform_def
      example_service_def authenticate_def allow_any_user_def)

lemma literal_first_before:
  assumes "literal_first P (before @ L # after)" and "x \<in> set before" and "cred_pattern P x"
  shows "cred_pattern P L"
proof -
  from assms(1)
  have "\<forall>x\<in>set before. \<forall>y\<in>set (L # after). cred_pattern P x \<longrightarrow> cred_pattern P y"
    unfolding literal_first_def sorted_wrt_append by blast
  with assms(2,3) show ?thesis
    by (meson list.set_intros(1))
qed

text \<open>
  C1 (as the code has it). On a snapshot in the literal-before-pattern order, \<^verbatim>\<open>authenticate\<close>
  returns the user id of the first entry whose four fields match the tuple: the entry's own
  \<^verbatim>\<open>user_id\<close> when it is set, the id derived from the tuple otherwise. In particular, when the
  tuple equals the fields of a literal entry \<open>L\<close> and every other matching entry has pattern
  credentials, \<open>L\<close> is the entry matched, wherever those pattern entries stand in the store.
\<close>

theorem authenticate_first_match:
  assumes "literal_first P (auth_entries st)"
  shows
    "(auth_entries st = pre @ e # post \<and> (\<forall>x\<in>set pre. \<not> match P x d a m cs) \<and>
      match P e d a m cs
        \<longrightarrow> authenticate P st d a m cs = Inr (Some (entry_user P e d a m cs))) \<and>
     (L \<in> set (auth_entries st) \<and> equals_literal P L d a m cs \<and>
      (\<forall>x\<in>set (auth_entries st). match P x d a m cs \<and> x \<noteq> L \<longrightarrow> cred_pattern P x)
        \<longrightarrow> authenticate P st d a m cs = Inr (Some (entry_user P L d a m cs)))"
proof (intro conjI impI)
  assume "auth_entries st = pre @ e # post \<and> (\<forall>x\<in>set pre. \<not> match P x d a m cs) \<and>
      match P e d a m cs"
  then show "authenticate P st d a m cs = Inr (Some (entry_user P e d a m cs))"
    by (simp add: authenticate_def authenticate_entries_first)
next
  assume h: "L \<in> set (auth_entries st) \<and> equals_literal P L d a m cs \<and>
      (\<forall>x\<in>set (auth_entries st). match P x d a m cs \<and> x \<noteq> L \<longrightarrow> cred_pattern P x)"
  then have "L \<in> set (auth_entries st)" by blast
  then obtain before after where
    entries: "auth_entries st = before @ L # after" and first: "L \<notin> set before"
    using split_list_first by fastforce
  have lit: "\<not> cred_pattern P L"
    using h equals_literal_not_pattern by blast
  have sorted: "literal_first P (before @ L # after)"
    using assms by (simp only: entries)
  have "\<not> match P x d a m cs" if "x \<in> set before" for x
  proof
    assume "match P x d a m cs"
    moreover have "x \<noteq> L" using that first by blast
    moreover have "x \<in> set (auth_entries st)" using that by (simp add: entries)
    ultimately have "cred_pattern P x" using h by blast
    then show False
      using lit literal_first_before [OF sorted that] by blast
  qed
  then have "\<forall>x\<in>set before. \<not> match P x d a m cs" by blast
  moreover have "match P L d a m cs"
    using h equals_literal_match by blast
  ultimately have "authenticate_entries P (before @ L # after) d a m cs
      = Some (entry_user P L d a m cs)"
    by (rule authenticate_entries_first)
  then show "authenticate P st d a m cs = Inr (Some (entry_user P L d a m cs))"
    by (simp add: authenticate_def entries)
qed

theorem authenticate_first_match_witness:
  "literal_first example_platform
     [example_entry ''vip'' ''localhost:1234'' ''NULL'' ''bob'' ''bob-id'' None,
      example_entry ''vip'' ''/.*/'' ''NULL'' ''/.*/'' ''anyone'' None] \<and>
   match example_platform (example_entry ''vip'' ''/.*/'' ''NULL'' ''/.*/'' ''anyone'' None)
     ''vip'' ''localhost:1234'' ''NULL'' [''bob''] \<and>
   authenticate example_platform
     (example_service
        [example_entry ''vip'' ''localhost:1234'' ''NULL'' ''bob'' ''bob-id'' None,
         example_entry ''vip'' ''/.*/'' ''NULL'' ''/.*/'' ''anyone'' None])
     ''vip'' ''localhost:1234'' ''NULL'' [''bob''] = Inr (Some ''bob-id'')"
proof -
  let ?L = "example_entry ''vip'' ''localhost:1234'' ''NULL'' ''bob'' ''bob-id'' None"
  let ?R = "example_entry ''vip'' ''/.*/'' ''NULL'' ''/.*/'' ''anyone'' None"
  have pattern: "cred_pattern example_platform ?R"
    by (simp add: cred_pattern_def example_entry_def example_platform_def)
  have literal: "\<not> cred_pattern example_platform ?L"
    by (simp add: cred_pattern_def example_entry_def example_platform_def)
  have sorted: "literal_first example_platform [?L, ?R]"
    by (simp add: literal_first_def pattern)
  have broad: "match example_platform ?R ''vip'' ''localhost:1234'' ''NULL'' [''bob'']"
    by (simp add: match_def field_match_def credentials_match_def example_entry_def
        example_platform_def)
  have exact: "equals_literal example_platform ?L ''vip'' ''localhost:1234'' ''NULL'' [''bob'']"
    by (simp add: equals_literal_def example_entry_def example_platform_def)
  have user: "entry_user example_platform ?L ''vip'' ''localhost:1234'' ''NULL'' [''bob'']
      = ''bob-id''"
    by (simp add: entry_user_def example_entry_def)
  have entries: "auth_entries (example_service [?L, ?R]) = [?L, ?R]"
    by (simp add: example_service_def)
  have sorted': "literal_first example_platform (auth_entries (example_service [?L, ?R]))"
    using sorted by (simp only: entries)
  have cond: "?L \<in> set (auth_entries (example_service [?L, ?R])) \<and>
      equals_literal example_platform ?L ''vip'' ''localhost:1234'' ''NULL'' [''bob''] \<and>
      (\<forall>x\<in>set (auth_entries (example_service [?L, ?R])).
          match example_platform x ''vip'' ''localhost:1234'' ''NULL'' [''bob''] \<and> x \<noteq> ?L
            \<longrightarrow> cred_pattern example_platform x)"
    unfolding entries using exact pattern by auto
  have "authenticate example_platform (example_service [?L, ?R])
      ''vip'' ''localhost:1234'' ''NULL'' [''bob''] = Inr (Some ''bob-id'')"
    using authenticate_first_match [OF sorted', THEN conjunct2, THEN mp, OF cond]
    by (simp only: user)
  with sorted broad show ?thesis by simp
qed

text \<open>
  Without the proviso on the other matching entries the literal entry need not be the one
  matched: the order looks at the credentials only. An entry with the literal credential
  \<^verbatim>\<open>bob\<close> and a pattern for its address may stand before the literal entry in a sorted
  snapshot, and then it is matched first.
\<close>

theorem authenticate_literal_counterexample:
  "literal_first example_platform
     [example_entry ''vip'' ''/.*/'' ''NULL'' ''bob'' ''anyone'' None,
      example_entry ''vip'' ''localhost:1234'' ''NULL'' ''bob'' ''bob-id'' None] \<and>
   equals_literal example_platform
     (example_entry ''vip'' ''localhost:1234'' ''NULL'' ''bob'' ''bob-id'' None)
     ''vip'' ''localhost:1234'' ''NULL'' [''bob''] \<and>
   authenticate example_platform
     (example_service
        [example_entry ''vip'' ''/.*/'' ''NULL'' ''bob'' ''anyone'' None,
         example_entry ''vip'' ''localhost:1234'' ''NULL'' ''bob'' ''bob-id'' None])
     ''vip'' ''localhost:1234'' ''NULL'' [''bob''] = Inr (Some ''anyone'')"
proof -
  let ?X = "example_entry ''vip'' ''/.*/'' ''NULL'' ''bob'' ''anyone'' None"
  let ?L = "example_entry ''vip'' ''localhost:1234'' ''NULL'' ''bob'' ''bob-id'' None"
  have sorted: "literal_first example_platform [?X, ?L]"
    by (simp add: literal_first_def cred_pattern_def example_entry_def example_platform_def)
  have exact: "equals_literal example_platform ?L ''vip'' ''localhost:1234'' ''NULL'' [''bob'']"
    by (simp add: equals_literal_def example_entry_def example_platform_def)
  have broad: "match example_platform ?X ''vip'' ''localhost:1234'' ''NULL'' [''bob'']"
    by (simp add: match_def field_match_def credentials_match_def example_entry_def
        example_platform_def)
  have user: "entry_user example_platform ?X ''vip'' ''localhost:1234'' ''NULL'' [''bob'']
      = ''anyone''"
    by (simp add: entry_user_def example_entry_def)
  have "authenticate example_platform (example_service [?X, ?L])
      ''vip'' ''localhost:1234'' ''NULL'' [''bob''] = Inr (Some ''anyone'')"
    by (simp add: authenticate_def example_service_def broad user)
  with sorted exact show ?thesis by simp
qed

section \<open>Properties of the pending queue\<close>

lemma increment_retries_none:
  "(increment_retries d a m c xs = None) = (\<forall>e\<in>set xs. \<not> same_tuple e d a m c)"
  by (induction xs) auto

lemma increment_retries_first:
  assumes "i < length xs" and "same_tuple (xs ! i) d a m c"
    and "\<forall>j<i. \<not> same_tuple (xs ! j) d a m c"
  shows "increment_retries d a m c xs = Some (xs[i := (xs ! i)\<lparr>retries := retries (xs ! i) + 1\<rparr>])"
  using assms
proof (induction xs arbitrary: i)
  case Nil
  then show ?case by simp
next
  case (Cons x xs)
  show ?case
  proof (cases i)
    case 0
    with Cons.prems show ?thesis by simp
  next
    case (Suc k)
    with Cons.prems have head: "\<not> same_tuple x d a m c" by auto
    from Suc Cons.prems have "k < length xs" "same_tuple (xs ! k) d a m c"
      "\<forall>j<k. \<not> same_tuple (xs ! j) d a m c" by auto
    then have "increment_retries d a m c xs
        = Some (xs[k := (xs ! k)\<lparr>retries := retries (xs ! k) + 1\<rparr>])"
      by (rule Cons.IH)
    with head Suc show ?thesis by simp
  qed
qed

lemma increment_retries_length:
  "increment_retries d a m c xs = Some ys \<Longrightarrow> length ys = length xs"
  by (induction xs arbitrary: ys) (auto split: if_splits)

text \<open>
  C3. \<^verbatim>\<open>_update_auth_pending\<close> on a 4-tuple: when the denied queue holds the tuple, its first
  entry with the tuple gets its retries incremented and nothing else changes; otherwise, when
  the pending queue holds it, the same happens there; in both cases the two queue lengths are
  unchanged. When neither holds it, exactly one record with retries 1 is appended to the
  pending queue. Recording one tuple three times from empty queues leaves one pending record
  with retries 3.
\<close>

theorem update_auth_pending_dedup:
  "(i < length (auth_denied st) \<and> same_tuple (auth_denied st ! i) d a m c \<and>
    (\<forall>j<i. \<not> same_tuple (auth_denied st ! j) d a m c)
      \<longrightarrow> update_auth_pending st d a m c u =
          st\<lparr>auth_denied := (auth_denied st)
               [i := (auth_denied st ! i)\<lparr>retries := retries (auth_denied st ! i) + 1\<rparr>]\<rparr>) \<and>
   ((\<forall>e\<in>set (auth_denied st). \<not> same_tuple e d a m c) \<and>
    i < length (auth_pending st) \<and> same_tuple (auth_pending st ! i) d a m c \<and>
    (\<forall>j<i. \<not> same_tuple (auth_pending st ! j) d a m c)
      \<longrightarrow> update_auth_pending st d a m c u =
          st\<lparr>auth_pending := (auth_pending st)
               [i := (auth_pending st ! i)\<lparr>retries := retries (auth_pending st ! i) + 1\<rparr>]\<rparr>) \<and>
   ((\<exists>e\<in>set (auth_denied st) \<union> set (auth_pending st). same_tuple e d a m c)
      \<longrightarrow> length (auth_denied (update_auth_pending st d a m c u)) = length (auth_denied st) \<and>
          length (auth_pending (update_auth_pending st d a m c u)) = length (auth_pending st)) \<and>
   ((\<forall>e\<in>set (auth_denied st) \<union> set (auth_pending st). \<not> same_tuple e d a m c)
      \<longrightarrow> update_auth_pending st d a m c u =
          st\<lparr>auth_pending := auth_pending st @
               [\<lparr>domain = Some d, address = Some a, mechanism = m, credentials = Some c,
                 user_id = Some u, retries = 1\<rparr>]\<rparr>) \<and>
   (auth_denied st = [] \<and> auth_pending st = []
      \<longrightarrow> update_auth_pending (update_auth_pending (update_auth_pending st d a m c u)
            d a m c u') d a m c u'' =
          st\<lparr>auth_pending :=
               [\<lparr>domain = Some d, address = Some a, mechanism = m, credentials = Some c,
                 user_id = Some u, retries = 3\<rparr>]\<rparr>)"
proof -
  have lengths:
    "length (auth_denied (update_auth_pending st d a m c u)) = length (auth_denied st) \<and>
     length (auth_pending (update_auth_pending st d a m c u)) = length (auth_pending st)"
    if h: "\<exists>e\<in>set (auth_denied st) \<union> set (auth_pending st). same_tuple e d a m c"
  proof (cases "increment_retries d a m c (auth_denied st)")
    case (Some denied)
    then show ?thesis
      by (simp add: update_auth_pending_def increment_retries_length)
  next
    case None
    with h have "increment_retries d a m c (auth_pending st) \<noteq> None"
      by (auto simp: increment_retries_none)
    then obtain pending where "increment_retries d a m c (auth_pending st) = Some pending"
      by blast
    with None show ?thesis
      by (simp add: update_auth_pending_def increment_retries_length)
  qed
  show ?thesis
  proof (intro conjI impI)
    assume h: "i < length (auth_denied st) \<and> same_tuple (auth_denied st ! i) d a m c \<and>
      (\<forall>j<i. \<not> same_tuple (auth_denied st ! j) d a m c)"
    have "increment_retries d a m c (auth_denied st) = Some ((auth_denied st)
             [i := (auth_denied st ! i)\<lparr>retries := retries (auth_denied st ! i) + 1\<rparr>])"
      by (rule increment_retries_first) (use h in blast)+
    then show "update_auth_pending st d a m c u =
        st\<lparr>auth_denied := (auth_denied st)
             [i := (auth_denied st ! i)\<lparr>retries := retries (auth_denied st ! i) + 1\<rparr>]\<rparr>"
      by (simp add: update_auth_pending_def)
  next
    assume h: "(\<forall>e\<in>set (auth_denied st). \<not> same_tuple e d a m c) \<and>
      i < length (auth_pending st) \<and> same_tuple (auth_pending st ! i) d a m c \<and>
      (\<forall>j<i. \<not> same_tuple (auth_pending st ! j) d a m c)"
    then have "increment_retries d a m c (auth_denied st) = None"
      by (simp add: increment_retries_none)
    moreover have "increment_retries d a m c (auth_pending st) = Some ((auth_pending st)
             [i := (auth_pending st ! i)\<lparr>retries := retries (auth_pending st ! i) + 1\<rparr>])"
      by (rule increment_retries_first) (use h in blast)+
    ultimately show "update_auth_pending st d a m c u =
        st\<lparr>auth_pending := (auth_pending st)
             [i := (auth_pending st ! i)\<lparr>retries := retries (auth_pending st ! i) + 1\<rparr>]\<rparr>"
      by (simp add: update_auth_pending_def)
  next
    assume "\<exists>e\<in>set (auth_denied st) \<union> set (auth_pending st). same_tuple e d a m c"
    then show "length (auth_denied (update_auth_pending st d a m c u)) = length (auth_denied st)"
      using lengths by blast
  next
    assume "\<exists>e\<in>set (auth_denied st) \<union> set (auth_pending st). same_tuple e d a m c"
    then show "length (auth_pending (update_auth_pending st d a m c u)) = length (auth_pending st)"
      using lengths by blast
  next
    assume "\<forall>e\<in>set (auth_denied st) \<union> set (auth_pending st). \<not> same_tuple e d a m c"
    then have "increment_retries d a m c (auth_denied st) = None"
      "increment_retries d a m c (auth_pending st) = None"
      by (simp_all add: increment_retries_none)
    then show "update_auth_pending st d a m c u =
        st\<lparr>auth_pending := auth_pending st @
             [\<lparr>domain = Some d, address = Some a, mechanism = m, credentials = Some c,
               user_id = Some u, retries = 1\<rparr>]\<rparr>"
      by (simp add: update_auth_pending_def)
  next
    assume "auth_denied st = [] \<and> auth_pending st = []"
    then show "update_auth_pending (update_auth_pending (update_auth_pending st d a m c u)
          d a m c u') d a m c u'' =
        st\<lparr>auth_pending :=
             [\<lparr>domain = Some d, address = Some a, mechanism = m, credentials = Some c,
               user_id = Some u, retries = 3\<rparr>]\<rparr>"
      by (simp add: update_auth_pending_def same_tuple_def)
  qed
qed

theorem update_auth_pending_dedup_witness:
  "auth_pending
     (update_auth_pending
        (update_auth_pending
           (update_auth_pending (example_service []) ''vip'' ''10.0.0.7'' ''CURVE'' ''key'' ''u1'')
           ''vip'' ''10.0.0.7'' ''CURVE'' ''key'' ''u2'')
        ''vip'' ''10.0.0.7'' ''CURVE'' ''key'' ''u3'')
     = [\<lparr>domain = Some ''vip'', address = Some ''10.0.0.7'', mechanism = ''CURVE'',
         credentials = Some ''key'', user_id = Some ''u1'', retries = 3\<rparr>] \<and>
   auth_denied
     (update_auth_pending
        ((example_service [])\<lparr>auth_denied :=
            [\<lparr>domain = Some ''vip'', address = Some ''10.0.0.7'', mechanism = ''CURVE'',
              credentials = Some ''key'', user_id = Some ''u0'', retries = 0\<rparr>]\<rparr>)
        ''vip'' ''10.0.0.7'' ''CURVE'' ''key'' ''u1'')
     = [\<lparr>domain = Some ''vip'', address = Some ''10.0.0.7'', mechanism = ''CURVE'',
         credentials = Some ''key'', user_id = Some ''u0'', retries = 1\<rparr>]"
proof -
  let ?r = "\<lparr>domain = Some ''vip'', address = Some ''10.0.0.7'', mechanism = ''CURVE'',
              credentials = Some ''key'', user_id = Some ''u0'', retries = 0\<rparr>"
  have empty: "auth_denied (example_service []) = [] \<and> auth_pending (example_service []) = []"
    by (simp add: example_service_def)
  have three: "update_auth_pending
        (update_auth_pending
           (update_auth_pending (example_service []) ''vip'' ''10.0.0.7'' ''CURVE'' ''key'' ''u1'')
           ''vip'' ''10.0.0.7'' ''CURVE'' ''key'' ''u2'')
        ''vip'' ''10.0.0.7'' ''CURVE'' ''key'' ''u3''
      = (example_service [])\<lparr>auth_pending :=
           [\<lparr>domain = Some ''vip'', address = Some ''10.0.0.7'', mechanism = ''CURVE'',
             credentials = Some ''key'', user_id = Some ''u1'', retries = 3\<rparr>]\<rparr>"
    using update_auth_pending_dedup
      [where st = "example_service []" and d = "''vip''" and a = "''10.0.0.7''"
        and m = "''CURVE''" and c = "''key''" and u = "''u1''" and u' = "''u2''"
        and u'' = "''u3''" and i = 0] empty
    by blast
  have first: "0 < length (auth_denied ((example_service [])\<lparr>auth_denied := [?r]\<rparr>)) \<and>
      same_tuple (auth_denied ((example_service [])\<lparr>auth_denied := [?r]\<rparr>) ! 0)
        ''vip'' ''10.0.0.7'' ''CURVE'' ''key'' \<and>
      (\<forall>j<0. \<not> same_tuple (auth_denied ((example_service [])\<lparr>auth_denied := [?r]\<rparr>) ! j)
        ''vip'' ''10.0.0.7'' ''CURVE'' ''key'')"
    by (simp add: same_tuple_def)
  have denied: "update_auth_pending ((example_service [])\<lparr>auth_denied := [?r]\<rparr>)
        ''vip'' ''10.0.0.7'' ''CURVE'' ''key'' ''u1''
      = ((example_service [])\<lparr>auth_denied := [?r]\<rparr>)\<lparr>auth_denied :=
          (auth_denied ((example_service [])\<lparr>auth_denied := [?r]\<rparr>))
            [0 := (auth_denied ((example_service [])\<lparr>auth_denied := [?r]\<rparr>) ! 0)
               \<lparr>retries := retries (auth_denied ((example_service [])\<lparr>auth_denied := [?r]\<rparr>) ! 0) + 1\<rparr>]\<rparr>"
    using update_auth_pending_dedup
      [where st = "(example_service [])\<lparr>auth_denied := [?r]\<rparr>" and d = "''vip''"
        and a = "''10.0.0.7''" and m = "''CURVE''" and c = "''key''" and u = "''u1''" and i = 0,
        THEN conjunct1, THEN mp, OF first] .
  show ?thesis
    by (simp add: three denied)
qed

section \<open>Properties of the per-method authorizations\<close>

lemma find_identity_Some:
  assumes "find_identity ident xs = Some (i, e)"
  shows "i < length xs \<and> xs ! i = e \<and> identity e = Some ident"
  using assms
proof (induction xs arbitrary: i)
  case Nil
  then show ?case by simp
next
  case (Cons x xs)
  show ?case
  proof (cases "identity x = Some ident")
    case True
    with Cons.prems show ?thesis by auto
  next
    case False
    with Cons.prems obtain k where "find_identity ident xs = Some (k, e)" and "i = Suc k"
      by auto
    with Cons.IH show ?thesis by auto
  qed
qed

lemma find_identity_update:
  assumes "find_identity ident xs = Some (i, e)" and "identity e' = Some ident"
  shows "find_identity ident (xs[i := e']) = Some (i, e')"
  using assms
proof (induction xs arbitrary: i)
  case Nil
  then show ?case by simp
next
  case (Cons x xs)
  show ?case
  proof (cases "identity x = Some ident")
    case True
    with Cons.prems show ?thesis by auto
  next
    case False
    with Cons.prems obtain k where k: "find_identity ident xs = Some (k, e)" "i = Suc k"
      by auto
    then have "find_identity ident (xs[k := e']) = Some (k, e')"
      using Cons.IH Cons.prems(2) by blast
    with False k show ?thesis by simp
  qed
qed

lemma add_authorizations_lookup:
  "map_of (add_authorizations auths method xs) method =
     Some (case map_of auths method of
             None \<Rightarrow> xs
           | Some current \<Rightarrow>
               if current = [] then xs else current @ filter (\<lambda>a. a \<notin> set current) xs)"
proof (cases "map_of auths method")
  case None
  then show ?thesis by (simp add: add_authorizations_def update_conv')
next
  case (Some current)
  have "filter (\<lambda>a. a \<in> set xs \<and> a \<notin> set current) xs = filter (\<lambda>a. a \<notin> set current) xs"
    by (rule filter_cong) auto
  with Some show ?thesis by (simp add: add_authorizations_def update_conv')
qed

lemma add_authorizations_after_update:
  assumes "set xs \<subseteq> set v"
  shows "add_authorizations (AList.update method v auths) method xs = AList.update method v auths"
proof (cases "v = []")
  case True
  with assms have "xs = []" by simp
  with True show ?thesis
    by (simp add: add_authorizations_def update_conv')
next
  case False
  have "filter (\<lambda>a. a \<in> set xs \<and> a \<notin> set v) xs = []"
    using assms by (auto simp: filter_empty_conv)
  with False show ?thesis
    by (simp add: add_authorizations_def update_conv')
qed

lemma add_authorizations_idem:
  "add_authorizations (add_authorizations auths method xs) method xs
     = add_authorizations auths method xs"
proof -
  define stored where "stored =
      (case map_of auths method of
         None \<Rightarrow> xs
       | Some current \<Rightarrow>
           if current = [] then xs else current @ filter (\<lambda>a. a \<notin> set current) xs)"
  have all: "set xs \<subseteq> set stored"
    unfolding stored_def by (auto split: option.splits)
  have fc: "filter (\<lambda>a. a \<in> set xs \<and> a \<notin> set c) xs = filter (\<lambda>a. a \<notin> set c) xs" for c
    by (rule filter_cong) auto
  have once: "add_authorizations auths method xs = AList.update method stored auths"
    unfolding stored_def add_authorizations_def
    by (simp add: fc split: option.splits)
  show ?thesis
    unfolding once using all by (rule add_authorizations_after_update)
qed

lemma add_rpc_authorizations_found:
  assumes "\<not> privileged P ident"
    and "find_identity ident (allow_entries (the_auth_file st)) = Some (i, e)"
  shows "add_rpc_authorizations P st ident method xs =
     (ReturnsNone,
      st\<lparr>the_auth_file := (the_auth_file st)\<lparr>allow_entries := (allow_entries (the_auth_file st))
          [i := e\<lparr>rpc_method_authorizations :=
                   add_authorizations (rpc_method_authorizations e) method xs\<rparr>]\<rparr>\<rparr>)"
  using assms find_identity_Some [OF assms(2)]
  by (simp add: add_rpc_authorizations_def update_by_index_def)

lemma add_rpc_authorizations_file_unchanged:
  assumes "privileged P ident \<or> find_identity ident (allow_entries (the_auth_file st)) = None"
  shows "the_auth_file (snd (add_rpc_authorizations P st ident method xs)) = the_auth_file st"
  using assms by (auto simp: add_rpc_authorizations_def log_error_def)

text \<open>
  C9 (as the code has it). \<^verbatim>\<open>add_rpc_authorizations\<close> is idempotent on the auth file: a second
  call with the same capability list leaves the file as the first call left it. The list stored
  for the method is the given list when the method is not a key or its list is empty, and
  otherwise the current list followed by the given capabilities that are not in it, in the
  given order; it is free of duplicates when the current list and the given list are.
\<close>

theorem add_rpc_authorizations_idempotent:
  "the_auth_file (snd (add_rpc_authorizations P
       (snd (add_rpc_authorizations P st ident method xs)) ident method xs))
     = the_auth_file (snd (add_rpc_authorizations P st ident method xs)) \<and>
   (\<not> privileged P ident \<and>
    find_identity ident (allow_entries (the_auth_file st)) = Some (i, entry)
      \<longrightarrow> method_authorizations (snd (add_rpc_authorizations P st ident method xs)) ident method
          = Some (case map_of (rpc_method_authorizations entry) method of
                    None \<Rightarrow> xs
                  | Some current \<Rightarrow>
                      if current = [] then xs
                      else current @ filter (\<lambda>a. a \<notin> set current) xs)) \<and>
   (\<not> privileged P ident \<and>
    find_identity ident (allow_entries (the_auth_file st)) = Some (i, entry) \<and>
    distinct xs \<and>
    (\<forall>current. map_of (rpc_method_authorizations entry) method = Some current
        \<longrightarrow> distinct current)
      \<longrightarrow> (\<exists>stored.
            method_authorizations (snd (add_rpc_authorizations P st ident method xs)) ident method
              = Some stored \<and> distinct stored))"
proof -
  let ?st1 = "snd (add_rpc_authorizations P st ident method xs)"
  have idem: "the_auth_file (snd (add_rpc_authorizations P ?st1 ident method xs))
      = the_auth_file ?st1"
  proof (cases "privileged P ident \<or>
      find_identity ident (allow_entries (the_auth_file st)) = None")
    case True
    then have "the_auth_file ?st1 = the_auth_file st"
      by (rule add_rpc_authorizations_file_unchanged)
    with True show ?thesis
      by (simp add: add_rpc_authorizations_file_unchanged)
  next
    case False
    then obtain k e where np: "\<not> privileged P ident"
      and found: "find_identity ident (allow_entries (the_auth_file st)) = Some (k, e)"
      by auto
    let ?e1 = "e\<lparr>rpc_method_authorizations :=
                   add_authorizations (rpc_method_authorizations e) method xs\<rparr>"
    have st1: "?st1 = st\<lparr>the_auth_file := (the_auth_file st)\<lparr>allow_entries :=
        (allow_entries (the_auth_file st))[k := ?e1]\<rparr>\<rparr>"
      by (simp add: add_rpc_authorizations_found [OF np found])
    have "identity ?e1 = Some ident"
      using find_identity_Some [OF found] by simp
    then have found1: "find_identity ident (allow_entries (the_auth_file ?st1)) = Some (k, ?e1)"
      using find_identity_update [OF found] by (simp add: st1)
    show ?thesis
      by (simp add: add_rpc_authorizations_found [OF np found1] add_authorizations_idem)
        (simp add: st1)
  qed
  have stored: "method_authorizations ?st1 ident method
      = Some (case map_of (rpc_method_authorizations entry) method of
                None \<Rightarrow> xs
              | Some current \<Rightarrow>
                  if current = [] then xs else current @ filter (\<lambda>a. a \<notin> set current) xs)"
    if np: "\<not> privileged P ident"
      and found: "find_identity ident (allow_entries (the_auth_file st)) = Some (i, entry)"
  proof -
    let ?e1 = "entry\<lparr>rpc_method_authorizations :=
                   add_authorizations (rpc_method_authorizations entry) method xs\<rparr>"
    have "identity ?e1 = Some ident"
      using find_identity_Some [OF found] by simp
    then have "find_identity ident (allow_entries (the_auth_file ?st1)) = Some (i, ?e1)"
      using find_identity_update [OF found]
      by (simp add: add_rpc_authorizations_found [OF np found])
    then show ?thesis
      by (simp add: method_authorizations_def add_authorizations_lookup)
  qed
  have dist: "\<exists>stored. method_authorizations ?st1 ident method = Some stored \<and> distinct stored"
    if np: "\<not> privileged P ident"
      and found: "find_identity ident (allow_entries (the_auth_file st)) = Some (i, entry)"
      and dx: "distinct xs"
      and dc: "\<forall>current. map_of (rpc_method_authorizations entry) method = Some current
        \<longrightarrow> distinct current"
  proof (cases "map_of (rpc_method_authorizations entry) method")
    case None
    with stored [OF np found] dx show ?thesis by simp
  next
    case (Some current)
    with dc have "distinct current" by blast
    with Some stored [OF np found] dx show ?thesis by auto
  qed
  show ?thesis
    using idem stored dist by blast
qed

lemma example_sensor_found:
  "\<not> privileged example_platform ''sensor1'' \<and>
   find_identity ''sensor1'' (allow_entries (the_auth_file (example_service [example_sensor])))
     = Some (0, example_sensor) \<and>
   map_of (rpc_method_authorizations example_sensor) ''get_point'' = Some [''operator'']"
  by (simp add: privileged_def example_platform_def example_service_def example_sensor_def
      example_entry_def)

theorem add_rpc_authorizations_idempotent_witness:
  "the_auth_file (snd (add_rpc_authorizations example_platform
       (snd (add_rpc_authorizations example_platform (example_service [example_sensor])
          ''sensor1'' ''get_point'' [''admin'', ''operator'']))
       ''sensor1'' ''get_point'' [''admin'', ''operator'']))
     = the_auth_file (snd (add_rpc_authorizations example_platform
          (example_service [example_sensor]) ''sensor1'' ''get_point'' [''admin'', ''operator''])) \<and>
   method_authorizations
     (snd (add_rpc_authorizations example_platform (example_service [example_sensor])
        ''sensor1'' ''get_point'' [''admin'', ''operator''])) ''sensor1'' ''get_point''
     = Some [''operator'', ''admin'']"
proof -
  note inst = add_rpc_authorizations_idempotent
    [of example_platform "example_service [example_sensor]" "''sensor1''" "''get_point''"
      "[''admin'', ''operator'']" 0 example_sensor]
  have found: "\<not> privileged example_platform ''sensor1'' \<and>
      find_identity ''sensor1'' (allow_entries (the_auth_file (example_service [example_sensor])))
        = Some (0, example_sensor)"
    using example_sensor_found by blast
  have "method_authorizations
     (snd (add_rpc_authorizations example_platform (example_service [example_sensor])
        ''sensor1'' ''get_point'' [''admin'', ''operator''])) ''sensor1'' ''get_point''
     = Some [''operator'', ''admin'']"
    using inst [THEN conjunct2, THEN conjunct1, THEN mp, OF found] example_sensor_found
    by simp
  with inst [THEN conjunct1] show ?thesis by blast
qed

text \<open>
  The list stored is not always free of duplicates: a capability that is new to the method and
  given twice is appended twice.
\<close>

theorem add_rpc_authorizations_duplicates_counterexample:
  "method_authorizations
     (snd (add_rpc_authorizations example_platform (example_service [example_sensor])
        ''sensor1'' ''get_point'' [''admin'', ''admin''])) ''sensor1'' ''get_point''
     = Some [''operator'', ''admin'', ''admin''] \<and>
   \<not> distinct [''operator'', ''admin'', ''admin'']"
proof -
  have np: "\<not> privileged example_platform ''sensor1''"
    and found: "find_identity ''sensor1''
        (allow_entries (the_auth_file (example_service [example_sensor])))
      = Some (0, example_sensor)"
    and cur: "map_of (rpc_method_authorizations example_sensor) ''get_point''
      = Some [''operator'']"
    using example_sensor_found by blast+
  have sensor: "identity example_sensor = Some ''sensor1''"
    by (simp add: example_sensor_def example_entry_def)
  have added: "add_authorizations (rpc_method_authorizations example_sensor) ''get_point''
      [''admin'', ''admin''] = [(''get_point'', [''operator'', ''admin'', ''admin''])]"
    by (simp add: add_authorizations_def example_sensor_def example_entry_def)
  have "allow_entries (the_auth_file
      (snd (add_rpc_authorizations example_platform (example_service [example_sensor])
        ''sensor1'' ''get_point'' [''admin'', ''admin''])))
      = [example_sensor\<lparr>rpc_method_authorizations :=
           [(''get_point'', [''operator'', ''admin'', ''admin''])]\<rparr>]"
    by (simp add: add_rpc_authorizations_found [OF np found] added)
      (simp add: example_service_def)
  then show ?thesis
    by (simp add: method_authorizations_def sensor)
qed

lemma delete_rpc_authorizations_some_match:
  assumes "\<not> privileged P ident"
    and "find_identity ident (allow_entries (the_auth_file st)) = Some (i, entry)"
    and "map_of (rpc_method_authorizations entry) method = Some current"
    and "current \<noteq> []"
    and "\<exists>a\<in>set denied. a \<in> set current"
  shows "delete_rpc_authorizations P st ident method denied =
     (ReturnsNone,
      st\<lparr>logged := logged st @ not_authorized_messages current method denied,
         the_auth_file := (the_auth_file st)\<lparr>allow_entries := (allow_entries (the_auth_file st))
           [i := entry\<lparr>rpc_method_authorizations :=
                 AList.update method (remaining_authorizations current denied)
                   (rpc_method_authorizations entry)\<rparr>]\<rparr>\<rparr>)"
  using assms find_identity_Some [OF assms(2)]
  by (simp add: delete_rpc_authorizations_def update_by_index_def Let_def)

text \<open>
  C8. For an identity that is not privileged, with an allow entry whose method has a non-empty
  capability list: when \<^verbatim>\<open>delete_rpc_authorizations\<close> is asked to remove every capability of
  that list, the list stored for the method becomes the sentinel \<^verbatim>\<open>[""]\<close>; when none of the
  requested capabilities is in the list, the call logs each of them as not authorized, logs
  that no matching capability was provided, and changes nothing else.
\<close>

theorem delete_rpc_authorizations_sentinel:
  assumes "\<not> privileged P ident"
    and "find_identity ident (allow_entries (the_auth_file st)) = Some (i, entry)"
    and "map_of (rpc_method_authorizations entry) method = Some current"
    and "current \<noteq> []"
  shows
    "(set current \<subseteq> set denied
        \<longrightarrow> fst (delete_rpc_authorizations P st ident method denied) = ReturnsNone \<and>
            method_authorizations (snd (delete_rpc_authorizations P st ident method denied))
              ident method = Some [''''] \<and>
            the_auth_file (snd (delete_rpc_authorizations P st ident method denied)) =
              (the_auth_file st)\<lparr>allow_entries := (allow_entries (the_auth_file st))
                [i := entry\<lparr>rpc_method_authorizations :=
                      AList.update method [''''] (rpc_method_authorizations entry)\<rparr>]\<rparr>) \<and>
     (set denied \<inter> set current = {}
        \<longrightarrow> delete_rpc_authorizations P st ident method denied =
            (ReturnsNone,
             st\<lparr>logged := logged st @
                  map (\<lambda>a. LogError (a @ '' is not an authorized capability for '' @ method))
                    denied @
                  [LogError (''No matching authorized capabilities provided for '' @ method)]\<rparr>))"
proof (intro conjI impI)
  assume all: "set current \<subseteq> set denied"
  from assms(4) obtain c where "c \<in> set current" by (cases current) auto
  with all have some: "\<exists>a\<in>set denied. a \<in> set current" by blast
  have "filter (\<lambda>a. a \<notin> set denied) current = []"
    using all by (auto simp: filter_empty_conv)
  then have rem: "remaining_authorizations current denied = ['''']"
    by (simp add: remaining_authorizations_def)
  note run = delete_rpc_authorizations_some_match [OF assms some, unfolded rem]
  let ?e1 = "entry\<lparr>rpc_method_authorizations :=
      AList.update method [''''] (rpc_method_authorizations entry)\<rparr>"
  show "fst (delete_rpc_authorizations P st ident method denied) = ReturnsNone"
    by (simp add: run)
  show "the_auth_file (snd (delete_rpc_authorizations P st ident method denied)) =
      (the_auth_file st)\<lparr>allow_entries := (allow_entries (the_auth_file st))[i := ?e1]\<rparr>"
    by (simp add: run)
  have "identity ?e1 = Some ident"
    using find_identity_Some [OF assms(2)] by simp
  then have "find_identity ident ((allow_entries (the_auth_file st))[i := ?e1]) = Some (i, ?e1)"
    using find_identity_update [OF assms(2)] by blast
  then show "method_authorizations (snd (delete_rpc_authorizations P st ident method denied))
      ident method = Some ['''']"
    by (simp add: run method_authorizations_def update_conv')
next
  assume none: "set denied \<inter> set current = {}"
  then have "filter (\<lambda>a. a \<notin> set current) denied = denied"
    by (auto simp: filter_id_conv)
  then have msgs: "not_authorized_messages current method denied =
      map (\<lambda>a. LogError (a @ '' is not an authorized capability for '' @ method)) denied"
    by (simp add: not_authorized_messages_def)
  from none have "\<not> (\<exists>a\<in>set denied. a \<in> set current)" by blast
  with assms msgs show "delete_rpc_authorizations P st ident method denied =
      (ReturnsNone,
       st\<lparr>logged := logged st @
            map (\<lambda>a. LogError (a @ '' is not an authorized capability for '' @ method)) denied @
            [LogError (''No matching authorized capabilities provided for '' @ method)]\<rparr>)"
    by (simp add: delete_rpc_authorizations_def log_error_def Let_def)
qed

theorem delete_rpc_authorizations_sentinel_witness:
  "method_authorizations
     (snd (delete_rpc_authorizations example_platform (example_service [example_sensor])
        ''sensor1'' ''get_point'' [''operator''])) ''sensor1'' ''get_point'' = Some [''''] \<and>
   delete_rpc_authorizations example_platform (example_service [example_sensor])
     ''sensor1'' ''get_point'' [''admin''] =
     (ReturnsNone,
      (example_service [example_sensor])\<lparr>logged :=
         [LogError ''admin is not an authorized capability for get_point'',
          LogError ''No matching authorized capabilities provided for get_point'']\<rparr>)"
proof -
  have np: "\<not> privileged example_platform ''sensor1''"
    and found: "find_identity ''sensor1''
        (allow_entries (the_auth_file (example_service [example_sensor])))
      = Some (0, example_sensor)"
    and cur: "map_of (rpc_method_authorizations example_sensor) ''get_point''
      = Some [''operator'']"
    using example_sensor_found by blast+
  have ne: "[''operator''] \<noteq> ([] :: string list)" by simp
  note inst = delete_rpc_authorizations_sentinel [OF np found cur ne]
  have a: "method_authorizations
     (snd (delete_rpc_authorizations example_platform (example_service [example_sensor])
        ''sensor1'' ''get_point'' [''operator''])) ''sensor1'' ''get_point'' = Some ['''']"
    using inst [of "[''operator'']", THEN conjunct1] by simp
  have b: "delete_rpc_authorizations example_platform (example_service [example_sensor])
     ''sensor1'' ''get_point'' [''admin''] =
     (ReturnsNone,
      (example_service [example_sensor])\<lparr>logged :=
         [LogError ''admin is not an authorized capability for get_point'',
          LogError ''No matching authorized capabilities provided for get_point'']\<rparr>)"
    using inst [of "[''admin'']", THEN conjunct2] by (simp add: example_service_def)
  from a b show ?thesis by blast
qed

text \<open>
  C7 (as the code has it). For a reserved process identity or the control-connection identity,
  \<^verbatim>\<open>add_rpc_authorizations\<close> and \<^verbatim>\<open>delete_rpc_authorizations\<close> log the error
  \<^verbatim>\<open>"<identity> cannot be modified using this command!"\<close>, return \<^verbatim>\<open>None\<close> to the caller and
  leave the auth file, and the rest of the service, as it was.
\<close>

theorem privileged_identity_not_modified:
  assumes "privileged P ident"
  shows "add_rpc_authorizations P st ident method xs =
           (ReturnsNone,
            st\<lparr>logged := logged st @
                 [LogError (ident @ '' cannot be modified using this command!'')]\<rparr>) \<and>
         delete_rpc_authorizations P st ident method xs =
           (ReturnsNone,
            st\<lparr>logged := logged st @
                 [LogError (ident @ '' cannot be modified using this command!'')]\<rparr>)"
  using assms
  by (simp add: add_rpc_authorizations_def delete_rpc_authorizations_def log_error_def)

theorem privileged_identity_not_modified_witness:
  "add_rpc_authorizations example_platform (example_service [example_sensor])
     ''control.connection'' ''get_point'' [''admin''] =
     (ReturnsNone,
      (example_service [example_sensor])\<lparr>logged :=
         [LogError ''control.connection cannot be modified using this command!'']\<rparr>) \<and>
   delete_rpc_authorizations example_platform (example_service [example_sensor])
     ''platform.auth'' ''get_point'' [''operator''] =
     (ReturnsNone,
      (example_service [example_sensor])\<lparr>logged :=
         [LogError ''platform.auth cannot be modified using this command!'']\<rparr>)"
proof -
  have p1: "privileged example_platform ''control.connection''"
    and p2: "privileged example_platform ''platform.auth''"
    by (simp_all add: privileged_def example_platform_def)
  show ?thesis
    using privileged_identity_not_modified [OF p1, THEN conjunct1]
      privileged_identity_not_modified [OF p2, THEN conjunct2]
    by (simp add: example_service_def)
qed

text \<open>
  No error reaches the caller: a call on the control-connection identity hands back what a
  call that updates the entry of \<^verbatim>\<open>sensor1\<close> hands back, the value \<^verbatim>\<open>None\<close>.
\<close>

theorem privileged_identity_counterexample:
  "privileged example_platform ''control.connection'' \<and>
   fst (add_rpc_authorizations example_platform (example_service [example_sensor])
     ''control.connection'' ''get_point'' [''admin'']) = ReturnsNone \<and>
   fst (add_rpc_authorizations example_platform (example_service [example_sensor])
     ''sensor1'' ''get_point'' [''admin'']) = ReturnsNone \<and>
   fst (delete_rpc_authorizations example_platform (example_service [example_sensor])
     ''control.connection'' ''get_point'' [''operator'']) = ReturnsNone \<and>
   fst (delete_rpc_authorizations example_platform (example_service [example_sensor])
     ''sensor1'' ''get_point'' [''operator'']) = ReturnsNone"
proof -
  have np: "\<not> privileged example_platform ''sensor1''"
    and found: "find_identity ''sensor1''
        (allow_entries (the_auth_file (example_service [example_sensor])))
      = Some (0, example_sensor)"
    and cur: "map_of (rpc_method_authorizations example_sensor) ''get_point''
      = Some [''operator'']"
    using example_sensor_found by blast+
  have p: "privileged example_platform ''control.connection''"
    by (simp add: privileged_def example_platform_def)
  have "fst (delete_rpc_authorizations example_platform (example_service [example_sensor])
     ''sensor1'' ''get_point'' [''operator'']) = ReturnsNone"
    using delete_rpc_authorizations_some_match [OF np found cur, of "[''operator'']"]
    by simp
  with p show ?thesis
    by (simp add: add_rpc_authorizations_found [OF np found]
        add_rpc_authorizations_def [of _ _ "''control.connection''"]
        delete_rpc_authorizations_def [of _ _ "''control.connection''"])
qed

section \<open>Properties of the push of method authorizations\<close>

lemma update_fresh_key:
  assumes "k \<notin> fst ` set al"
  shows "AList.update k v al = al @ [(k, v)]"
  using assms by (induction al) auto

lemma modified_methods_fold:
  assumes "distinct (map fst (pre @ suf))"
  shows "foldl (\<lambda>modified method.
              case map_of (pre @ suf) method of
                None \<Rightarrow> modified
              | Some caps \<Rightarrow> if caps = [] then modified else AList.update method caps modified)
           (filter (\<lambda>(method, caps). caps \<noteq> []) pre) (map fst suf)
         = filter (\<lambda>(method, caps). caps \<noteq> []) (pre @ suf)"
  using assms
proof (induction suf arbitrary: pre)
  case Nil
  then show ?case by simp
next
  case (Cons kv suf)
  obtain k v where kv: "kv = (k, v)" by (cases kv)
  have dist: "distinct (map fst ((pre @ [kv]) @ suf))"
    using Cons.prems by simp
  have "(k, v) \<in> set (pre @ kv # suf)"
    using kv by simp
  with Cons.prems have look: "map_of (pre @ kv # suf) k = Some v"
    by (rule map_of_is_SomeI)
  have fresh: "k \<notin> fst ` set (filter (\<lambda>(method, caps). caps \<noteq> []) pre)"
    using Cons.prems kv by auto
  have step: "(case map_of (pre @ kv # suf) k of
                None \<Rightarrow> filter (\<lambda>(method, caps). caps \<noteq> []) pre
              | Some caps \<Rightarrow>
                  if caps = [] then filter (\<lambda>(method, caps). caps \<noteq> []) pre
                  else AList.update k caps (filter (\<lambda>(method, caps). caps \<noteq> []) pre))
      = filter (\<lambda>(method, caps). caps \<noteq> []) (pre @ [kv])"
    using look kv by (simp add: update_fresh_key [OF fresh])
  have "pre @ kv # suf = (pre @ [kv]) @ suf" by simp
  then show ?case
    using Cons.IH [OF dist] step kv by simp
qed

lemma modified_methods_required:
  assumes "distinct (map fst (rpc_method_authorizations entry))"
  shows "modified_methods (rpc_method_authorizations entry) = required_methods entry"
  using modified_methods_fold [of "[]" "rpc_method_authorizations entry"] assms
  by (simp add: modified_methods_def required_methods_def)

lemma bulk_calls_append: "bulk_calls (xs @ ys) = bulk_calls xs @ bulk_calls ys"
  by (simp add: bulk_calls_def)

lemma set_rpc_authorizations_each_bulk:
  "bulk_calls (snd (set_rpc_authorizations_each T ident auths ms tr)) = bulk_calls tr"
proof (induction ms arbitrary: tr)
  case Nil
  then show ?case by simp
next
  case (Cons m ms)
  show ?case
  proof (cases "map_of auths m")
    case None
    then show ?thesis by simp
  next
    case (Some caps)
    show ?thesis
    proof (cases "T (SingleCall ident m caps)")
      case Returned
      with Some show ?thesis
        by (simp add: Cons.IH) (simp add: bulk_calls_def)
    next
      case (Raised e)
      with Some show ?thesis
        by (simp add: Cons.IH) (simp add: bulk_calls_def)
    qed
  qed
qed

lemma update_entry_bulk:
  assumes "identity entry = Some ident" and "\<not> privileged P ident"
    and "distinct (map fst (rpc_method_authorizations entry))"
  shows "bulk_calls (snd (update_entry_rpc_authorizations P T entry tr))
     = bulk_calls tr @ expected_push entry"
proof (cases "required_methods entry = []")
  case True
  with assms show ?thesis
    by (simp add: update_entry_rpc_authorizations_def modified_methods_required
        expected_push_def)
next
  case False
  let ?m = "required_methods entry"
  have push: "expected_push entry = [BulkCall ident ?m]"
    using False assms(1) by (simp add: expected_push_def)
  have one: "bulk_calls (tr @ [BulkCall ident ?m]) = bulk_calls tr @ [BulkCall ident ?m]"
    by (simp add: bulk_calls_def)
  show ?thesis
  proof (cases "T (BulkCall ident ?m)")
    case Returned
    with assms False show ?thesis
      by (simp add: update_entry_rpc_authorizations_def modified_methods_required push one)
  next
    case (Raised e)
    have two: "bulk_calls (tr @ [BulkCall ident ?m, Logged (timed_out_message ident)])
        = bulk_calls tr @ [BulkCall ident ?m]"
      by (simp add: bulk_calls_def)
    from Raised assms False show ?thesis
      by (simp add: update_entry_rpc_authorizations_def modified_methods_required push one two
          set_rpc_authorizations_each_bulk Let_def)
  qed
qed

lemma update_rpc_authorizations_bulk:
  assumes "\<forall>e\<in>set es. (\<exists>ident. identity e = Some ident \<and> \<not> privileged P ident) \<and>
      distinct (map fst (rpc_method_authorizations e))"
  shows "prefix (bulk_calls (snd (update_rpc_authorizations P T es tr)))
           (bulk_calls tr @ concat (map expected_push es)) \<and>
         (fst (update_rpc_authorizations P T es tr) = None
            \<longrightarrow> bulk_calls (snd (update_rpc_authorizations P T es tr))
                = bulk_calls tr @ concat (map expected_push es))"
  using assms
proof (induction es arbitrary: tr)
  case Nil
  then show ?case by simp
next
  case (Cons e es)
  from Cons.prems obtain ident where id: "identity e = Some ident" "\<not> privileged P ident"
    and dist: "distinct (map fst (rpc_method_authorizations e))" by auto
  obtain exc tr' where run: "update_entry_rpc_authorizations P T e tr = (exc, tr')"
    by (cases "update_entry_rpc_authorizations P T e tr")
  have bulk: "bulk_calls tr' = bulk_calls tr @ expected_push e"
    using update_entry_bulk [OF id dist, of T tr] run by simp
  show ?case
  proof (cases exc)
    case None
    have "\<forall>e\<in>set es. (\<exists>ident. identity e = Some ident \<and> \<not> privileged P ident) \<and>
        distinct (map fst (rpc_method_authorizations e))"
      using Cons.prems by simp
    from Cons.IH [OF this, of tr'] None run bulk show ?thesis by simp
  next
    case (Some x)
    with run bulk show ?thesis by simp
  qed
qed

lemma get_updated_entries_members:
  assumes "e \<in> set (get_updated_entries P old_entries new_entries)"
  shows "e \<in> set new_entries \<and> (\<exists>ident. identity e = Some ident \<and> \<not> privileged P ident)"
proof -
  from assms obtain n where n: "n \<in> set new_entries" and e: "e \<in> set (updated_entry P old_entries n)"
    by (auto simp: get_updated_entries_def)
  have "e = n \<and> (\<exists>ident. identity n = Some ident \<and> \<not> privileged P ident)"
  proof (cases "identity n")
    case None
    with e show ?thesis by (simp add: updated_entry_def)
  next
    case (Some ident)
    with e have "\<not> privileged P ident" "e = n"
      by (auto simp: updated_entry_def split: if_splits)
    with Some show ?thesis by simp
  qed
  with n show ?thesis by blast
qed

text \<open>
  C6. For the entries that \<^verbatim>\<open>_get_updated_entries\<close> hands to \<^verbatim>\<open>update_rpc_authorizations\<close>, the
  bulk calls made are, in order, one call for each entry that has a method with a non-empty
  capability list, carrying exactly the methods with a non-empty list; an entry whose methods
  all have empty lists gets no call. (When an exception other than a timeout or a remote
  error leaves the method, the calls made are an initial part of these.)
\<close>

theorem update_rpc_authorizations_push:
  assumes "\<forall>e\<in>set new_entries. distinct (map fst (rpc_method_authorizations e))"
  shows
    "prefix
       (bulk_calls (snd (update_rpc_authorizations P T
          (get_updated_entries P old_entries new_entries) [])))
       (concat (map expected_push (get_updated_entries P old_entries new_entries))) \<and>
     (fst (update_rpc_authorizations P T (get_updated_entries P old_entries new_entries) [])
        = None
        \<longrightarrow> bulk_calls (snd (update_rpc_authorizations P T
              (get_updated_entries P old_entries new_entries) []))
            = concat (map expected_push (get_updated_entries P old_entries new_entries)))"
proof -
  have "\<forall>e\<in>set (get_updated_entries P old_entries new_entries).
      (\<exists>ident. identity e = Some ident \<and> \<not> privileged P ident) \<and>
      distinct (map fst (rpc_method_authorizations e))"
    using assms get_updated_entries_members by blast
  from update_rpc_authorizations_bulk [OF this, of T "[]"] show ?thesis
    by (simp add: bulk_calls_def)
qed

lemma example_sensor_two_facts:
  "identity example_sensor_two = Some ''sensor1''"
  "\<not> privileged example_platform ''sensor1''"
  "distinct (map fst (rpc_method_authorizations example_sensor_two))"
  "required_methods example_sensor_two = [(''get_point'', [''operator''])]"
  by (simp_all add: example_sensor_two_def example_entry_def privileged_def
      example_platform_def required_methods_def)

theorem update_rpc_authorizations_push_witness:
  "get_updated_entries example_platform [] [example_sensor_two] = [example_sensor_two] \<and>
   update_rpc_authorizations example_platform (\<lambda>ev. Returned) [example_sensor_two] []
     = (None, [BulkCall ''sensor1'' [(''get_point'', [''operator''])]]) \<and>
   bulk_calls (snd (update_rpc_authorizations example_platform (\<lambda>ev. Returned)
       (get_updated_entries example_platform [] [example_sensor_two]) []))
     = [BulkCall ''sensor1'' [(''get_point'', [''operator''])]]"
proof -
  have diff: "get_updated_entries example_platform [] [example_sensor_two] = [example_sensor_two]"
    by (simp add: get_updated_entries_def updated_entry_def example_sensor_two_facts)
  have wf: "\<forall>e\<in>set [example_sensor_two]. distinct (map fst (rpc_method_authorizations e))"
    by (simp add: example_sensor_two_facts)
  have "update_entry_rpc_authorizations example_platform (\<lambda>ev. Returned) example_sensor_two []
     = (None, [BulkCall ''sensor1'' [(''get_point'', [''operator''])]])"
    by (simp add: update_entry_rpc_authorizations_def example_sensor_two_facts
        modified_methods_required)
  then have run: "update_rpc_authorizations example_platform (\<lambda>ev. Returned)
      [example_sensor_two] []
     = (None, [BulkCall ''sensor1'' [(''get_point'', [''operator''])]])"
    by simp
  note inst = update_rpc_authorizations_push
      [OF wf, of example_platform "\<lambda>ev. Returned" "[]", THEN conjunct2, unfolded diff run]
  have "bulk_calls (snd (update_rpc_authorizations example_platform (\<lambda>ev. Returned)
       (get_updated_entries example_platform [] [example_sensor_two]) []))
     = concat (map expected_push [example_sensor_two])"
    unfolding diff run using inst by simp
  then show ?thesis
    unfolding diff run by (simp add: expected_push_def example_sensor_two_facts)
qed

text \<open>
  C5 (what the code does). The claim asks for one call for each method of a batch that the peer
  rejected. The code does not get there: the bulk call is only waited for, and waiting raises
  nothing, so that \<^verbatim>\<open>method_error\<close> is false after it whatever the peer answered. For an entry
  with a method that requires a capability, the one event is the bulk call: no call for a
  single method follows a rejection and nothing is logged.
\<close>

theorem update_rpc_authorizations_no_fallback:
  assumes "identity entry = Some ident" and "\<not> privileged P ident"
    and "distinct (map fst (rpc_method_authorizations entry))"
    and "required_methods entry \<noteq> []"
    and "peer (BulkCall ident (required_methods entry)) = Rejected"
  shows "update_entry_rpc_authorizations P (call_statements peer) entry tr =
           (None, tr @ [BulkCall ident (required_methods entry)])"
proof -
  have "call_statements peer (BulkCall ident (required_methods entry)) = Returned"
    using assms(5) by (simp add: call_statements_def future_wait_def)
  then show ?thesis
    using assms(1,2,4)
    by (simp add: update_entry_rpc_authorizations_def modified_methods_required [OF assms(3)]
        Let_def)
qed

theorem update_rpc_authorizations_no_fallback_witness:
  "update_rpc_authorizations example_platform (call_statements (\<lambda>ev. Rejected))
     [example_sensor_two] [] =
     (None, [BulkCall ''sensor1'' [(''get_point'', [''operator''])]])"
proof -
  have ne: "required_methods example_sensor_two \<noteq> []"
    by (simp add: example_sensor_two_facts)
  have rejected: "(\<lambda>ev. Rejected) (BulkCall ''sensor1'' (required_methods example_sensor_two))
      = Rejected"
    by simp
  note inst = update_rpc_authorizations_no_fallback
      [OF example_sensor_two_facts(1,2,3) ne rejected, of "[]"]
  show ?thesis
    by (simp only: update_rpc_authorizations.simps inst example_sensor_two_facts(4) append_Nil
        prod.case option.case)
qed

section \<open>Properties of approving and deleting\<close>

lemma find_user_None: "(find_user u xs = None) = (of_user u xs = [])"
  by (induction xs) (auto simp: of_user_def)

lemma find_user_Some:
  assumes "find_user u xs = Some (i, r)"
  shows "i < length xs \<and> xs ! i = r \<and> user_id r = Some u"
  using assms
proof (induction xs arbitrary: i)
  case Nil
  then show ?case by simp
next
  case (Cons x xs)
  show ?case
  proof (cases "user_id x = Some u")
    case True
    with Cons.prems show ?thesis by auto
  next
    case False
    with Cons.prems obtain k where "find_user u xs = Some (k, r)" and "i = Suc k"
      by auto
    with Cons.IH show ?thesis by auto
  qed
qed

lemma of_user_removed:
  assumes "length (of_user u xs) = 1" and "find_user u xs = Some (i, r)"
  shows "of_user u (take i xs @ drop (Suc i) xs) = []"
proof -
  from find_user_Some [OF assms(2)] have i: "i < length xs" and r: "user_id (xs ! i) = Some u"
    by auto
  from i have "xs = take i xs @ xs ! i # drop (Suc i) xs"
    by (rule id_take_nth_drop)
  then have "of_user u xs = of_user u (take i xs) @ xs ! i # of_user u (drop (Suc i) xs)"
    using r by (metis (mono_tags, lifting) filter.simps(2) filter_append of_user_def)
  with assms(1) have "of_user u (take i xs) = []" "of_user u (drop (Suc i) xs) = []"
    by auto
  then show ?thesis by (simp add: of_user_def)
qed

lemma update_auth_entry_fields:
  "auth_pending (update_auth_entry st d a m c u is_allow) = auth_pending st"
  "auth_approved (update_auth_entry st d a m c u is_allow) = auth_approved st"
  "auth_denied (update_auth_entry st d a m c u is_allow) = auth_denied st"
  by (simp_all add: update_auth_entry_def split: sum.splits)

lemma foldl_approve_deny_fields:
  "auth_pending (foldl (\<lambda>s p. s\<lparr>the_auth_file := g (the_auth_file s)\<rparr>) st ps) = auth_pending st"
  "auth_approved (foldl (\<lambda>s p. s\<lparr>the_auth_file := g (the_auth_file s)\<rparr>) st ps) = auth_approved st"
  "auth_denied (foldl (\<lambda>s p. s\<lparr>the_auth_file := g (the_auth_file s)\<rparr>) st ps) = auth_denied st"
  by (induction ps arbitrary: st) simp_all

lemma foldl_approve_keeps_allowed:
  "set (allow_entries (the_auth_file st)) \<subseteq>
   set (allow_entries (the_auth_file
     (foldl (\<lambda>s p. s\<lparr>the_auth_file := approve_deny_credential u True (the_auth_file s)\<rparr>) st ps)))"
proof (induction ps arbitrary: st)
  case Nil
  then show ?case by simp
next
  case (Cons p ps)
  have "set (allow_entries (the_auth_file st)) \<subseteq>
      set (allow_entries (the_auth_file
        (st\<lparr>the_auth_file := approve_deny_credential u True (the_auth_file st)\<rparr>)))"
    by (simp add: approve_deny_credential_def)
  with Cons.IH [of "st\<lparr>the_auth_file := approve_deny_credential u True (the_auth_file st)\<rparr>"]
  show ?case by auto
qed

lemma approve_fields:
  "auth_approved (approve_authorization_failure P st u) = auth_approved st"
  "auth_denied (approve_authorization_failure P st u) = auth_denied st"
  "auth_pending (approve_authorization_failure P st u) =
     (case find_user u (auth_pending st) of
        None \<Rightarrow> auth_pending st
      | Some (i, r) \<Rightarrow> take i (auth_pending st) @ drop (Suc i) (auth_pending st))"
  by (simp_all add: approve_authorization_failure_def promote_pending_def Let_def
      foldl_approve_deny_fields update_auth_entry_fields split: option.splits)

lemma read_auth_file_fields:
  "auth_pending (read_auth_file P st) = auth_pending st"
  "the_auth_file (read_auth_file P st) = the_auth_file st"
  "auth_approved (read_auth_file P st) =
     filter (\<lambda>r. address r \<noteq> None) (map listed (allow_entries (the_auth_file st)))"
  "auth_denied (read_auth_file P st) =
     filter (\<lambda>r. address r \<noteq> None) (map listed (deny_entries (the_auth_file st)))"
  by (simp_all add: read_auth_file_def update_auth_lists_def Let_def)

lemma foldl_remove_fields:
  "auth_pending (foldl (\<lambda>s p. remove_auth_entry s (credentials p) b) st ps) = auth_pending st"
  "auth_approved (foldl (\<lambda>s p. remove_auth_entry s (credentials p) b) st ps) = auth_approved st"
  "auth_denied (foldl (\<lambda>s p. remove_auth_entry s (credentials p) b) st ps) = auth_denied st"
  by (induction ps arbitrary: st) (simp_all add: remove_auth_entry_def)

lemma foldl_remove_allow:
  "the_auth_file (foldl (\<lambda>s p. remove_auth_entry s (credentials p) True) st ps) =
     (the_auth_file st)\<lparr>allow_entries :=
        filter (\<lambda>e. credentials e \<notin> credentials ` set ps) (allow_entries (the_auth_file st))\<rparr>"
proof (induction ps arbitrary: st)
  case Nil
  then show ?case by simp
next
  case (Cons p ps)
  have "filter (\<lambda>e. credentials e \<notin> credentials ` set ps)
          (filter (\<lambda>e. credentials e \<noteq> credentials p) xs)
      = filter (\<lambda>e. credentials e \<notin> credentials ` set (p # ps)) xs" for xs :: "auth_entry list"
    by (induction xs) auto
  then show ?case
    by (simp add: Cons.IH) (simp add: remove_auth_entry_def remove_by_credentials_def)
qed

lemma foldl_remove_deny:
  "the_auth_file (foldl (\<lambda>s p. remove_auth_entry s (credentials p) False) st ps) =
     (the_auth_file st)\<lparr>deny_entries :=
        filter (\<lambda>e. credentials e \<notin> credentials ` set ps) (deny_entries (the_auth_file st))\<rparr>"
proof (induction ps arbitrary: st)
  case Nil
  then show ?case by simp
next
  case (Cons p ps)
  have "filter (\<lambda>e. credentials e \<notin> credentials ` set ps)
          (filter (\<lambda>e. credentials e \<noteq> credentials p) xs)
      = filter (\<lambda>e. credentials e \<notin> credentials ` set (p # ps)) xs" for xs :: "auth_entry list"
    by (induction xs) auto
  then show ?case
    by (simp add: Cons.IH) (simp add: remove_auth_entry_def remove_by_credentials_def)
qed

lemma delete_not_pending:
  assumes "of_user u (auth_pending st) = []"
  shows "auth_pending (delete_authorization_failure P st u) = auth_pending st"
    and "allow_entries (the_auth_file (delete_authorization_failure P st u)) =
      filter (\<lambda>e. credentials e \<notin> credentials ` set (of_user u (auth_approved st)))
        (allow_entries (the_auth_file st))"
    and "deny_entries (the_auth_file (delete_authorization_failure P st u)) =
      filter (\<lambda>e. credentials e \<notin> credentials ` set (of_user u (auth_denied st)))
        (deny_entries (the_auth_file st))"
proof -
  from assms have none: "find_user u (auth_pending st) = None"
    by (simp add: find_user_None)
  show "auth_pending (delete_authorization_failure P st u) = auth_pending st"
    by (simp add: delete_authorization_failure_def promote_pending_def drop_pending_def none
        Let_def foldl_remove_fields)
  show "allow_entries (the_auth_file (delete_authorization_failure P st u)) =
      filter (\<lambda>e. credentials e \<notin> credentials ` set (of_user u (auth_approved st)))
        (allow_entries (the_auth_file st))"
    by (simp add: delete_authorization_failure_def promote_pending_def drop_pending_def none
        Let_def foldl_remove_fields foldl_remove_allow foldl_remove_deny)
  show "deny_entries (the_auth_file (delete_authorization_failure P st u)) =
      filter (\<lambda>e. credentials e \<notin> credentials ` set (of_user u (auth_denied st)))
        (deny_entries (the_auth_file st))"
    by (simp add: delete_authorization_failure_def promote_pending_def drop_pending_def none
        Let_def foldl_remove_fields foldl_remove_allow foldl_remove_deny)
qed

lemma listed_removed:
  assumes "e \<in> set (filter (\<lambda>e. credentials e \<notin>
      credentials ` set (of_user u (filter (\<lambda>r. address r \<noteq> None) (map listed es)))) es)"
    and "user_id e = Some u"
  shows "address e = None"
proof (rule ccontr)
  assume "address e \<noteq> None"
  moreover from assms(1) have "e \<in> set es" by simp
  ultimately have "listed e \<in> set (map listed es)" "address (listed e) \<noteq> None"
    "user_id (listed e) = Some u"
    using assms(2) by (simp, simp add: listed_def, simp add: listed_def)
  then have "listed e \<in> set (of_user u (filter (\<lambda>r. address r \<noteq> None) (map listed es)))"
    by (simp add: of_user_def)
  then have "credentials (listed e) \<in>
      credentials ` set (of_user u (filter (\<lambda>r. address r \<noteq> None) (map listed es)))"
    by (rule imageI)
  with assms(1) show False by (simp add: listed_def)
qed

lemma of_user_listed_empty:
  assumes "\<forall>e\<in>set es. user_id e = Some u \<longrightarrow> address e = None"
  shows "of_user u (filter (\<lambda>r. address r \<noteq> None) (map listed es)) = []"
  using assms by (auto simp: of_user_def filter_empty_conv listed_def)

lemma approve_persists:
  assumes "find_user u (auth_pending st) = Some (i, r)"
    and "\<forall>e\<in>set (allow_entries (the_auth_file st)). credentials e \<noteq> credentials r"
  shows "new_entry (domain r) (address r) (mechanism r) (credentials r) (user_id r)
     \<in> set (allow_entries (the_auth_file (approve_authorization_failure P st u)))"
proof -
  let ?n = "new_entry (domain r) (address r) (mechanism r) (credentials r) (user_id r)"
  let ?s = "(update_auth_entry st (domain r) (address r) (mechanism r) (credentials r)
      (user_id r) True)\<lparr>auth_pending := take i (auth_pending st) @ drop (Suc i) (auth_pending st)\<rparr>"
  have "credentials ?n = credentials r"
    by (simp add: new_entry_def)
  with assms(2) have "auth_file_add ?n False True (the_auth_file st)
      = Inr ((the_auth_file st)\<lparr>allow_entries := allow_entries (the_auth_file st) @ [?n]\<rparr>)"
    by (simp add: auth_file_add_def)
  then have "?n \<in> set (allow_entries (the_auth_file ?s))"
    by (simp add: update_auth_entry_def)
  then have "?n \<in> set (allow_entries (the_auth_file
      (foldl (\<lambda>s p. s\<lparr>the_auth_file := approve_deny_credential u True (the_auth_file s)\<rparr>)
         ?s (of_user u (auth_denied ?s)))))"
    using foldl_approve_keeps_allowed by blast
  then show ?thesis
    by (simp add: approve_authorization_failure_def promote_pending_def assms(1) Let_def)
qed

text \<open>
  C4 (as the code has it). For a user id with exactly one pending record: Approve, a reload,
  Delete and a reload leave the user id in none of the pending, approved and denied queues,
  and leave no persisted allow entry of the user id with an address; in particular the entry
  that Approve persisted from a pending record with an address is gone. (Approve persists that
  entry whenever the allow list holds no entry with the record's credentials.)
\<close>

theorem approve_reload_delete_reload_clears:
  assumes "length (of_user u (auth_pending st)) = 1"
  shows
    "of_user u (auth_pending (approve_reload_delete_reload P st u)) = [] \<and>
     of_user u (auth_approved (approve_reload_delete_reload P st u)) = [] \<and>
     of_user u (auth_denied (approve_reload_delete_reload P st u)) = [] \<and>
     (\<forall>e\<in>set (allow_entries (the_auth_file (approve_reload_delete_reload P st u))).
        user_id e = Some u \<longrightarrow> address e = None) \<and>
     (\<forall>r\<in>set (auth_pending st). user_id r = Some u \<and> address r \<noteq> None
        \<longrightarrow> new_entry (domain r) (address r) (mechanism r) (credentials r) (user_id r)
            \<notin> set (allow_entries (the_auth_file (approve_reload_delete_reload P st u)))) \<and>
     (\<forall>r\<in>set (auth_pending st). user_id r = Some u \<and>
        (\<forall>e\<in>set (allow_entries (the_auth_file st)). credentials e \<noteq> credentials r)
        \<longrightarrow> new_entry (domain r) (address r) (mechanism r) (credentials r) (user_id r)
            \<in> set (allow_entries (the_auth_file (approve_authorization_failure P st u))))"
proof -
  define st1 where "st1 = approve_authorization_failure P st u"
  define st2 where "st2 = read_auth_file P st1"
  define st3 where "st3 = delete_authorization_failure P st2 u"
  define st4 where "st4 = read_auth_file P st3"
  have final: "approve_reload_delete_reload P st u = st4"
    by (simp add: approve_reload_delete_reload_def st1_def st2_def st3_def st4_def)
  from assms have "of_user u (auth_pending st) \<noteq> []" by auto
  then obtain i r0 where found: "find_user u (auth_pending st) = Some (i, r0)"
    using find_user_None by (cases "find_user u (auth_pending st)") auto
  have p1: "of_user u (auth_pending st1) = []"
    using of_user_removed [OF assms found] by (simp add: st1_def approve_fields found)
  have p2: "of_user u (auth_pending st2) = []"
    using p1 by (simp add: st2_def read_auth_file_fields)
  have p3: "auth_pending st3 = auth_pending st2"
    unfolding st3_def using p2 by (rule delete_not_pending)
  have pending: "of_user u (auth_pending st4) = []"
    using p2 p3 by (simp add: st4_def read_auth_file_fields)
  have allow3: "allow_entries (the_auth_file st3) =
      filter (\<lambda>e. credentials e \<notin> credentials ` set (of_user u
          (filter (\<lambda>r. address r \<noteq> None) (map listed (allow_entries (the_auth_file st1))))))
        (allow_entries (the_auth_file st1))"
    using delete_not_pending(2) [OF p2, of P]
    by (simp add: st3_def st2_def read_auth_file_fields)
  have deny3: "deny_entries (the_auth_file st3) =
      filter (\<lambda>e. credentials e \<notin> credentials ` set (of_user u
          (filter (\<lambda>r. address r \<noteq> None) (map listed (deny_entries (the_auth_file st1))))))
        (deny_entries (the_auth_file st1))"
    using delete_not_pending(3) [OF p2, of P]
    by (simp add: st3_def st2_def read_auth_file_fields)
  have no_allow: "\<forall>e\<in>set (allow_entries (the_auth_file st3)).
      user_id e = Some u \<longrightarrow> address e = None"
    unfolding allow3 using listed_removed by blast
  have no_deny: "\<forall>e\<in>set (deny_entries (the_auth_file st3)).
      user_id e = Some u \<longrightarrow> address e = None"
    unfolding deny3 using listed_removed by blast
  have approved: "of_user u (auth_approved st4) = []"
    using of_user_listed_empty [OF no_allow] by (simp add: st4_def read_auth_file_fields)
  have denied: "of_user u (auth_denied st4) = []"
    using of_user_listed_empty [OF no_deny] by (simp add: st4_def read_auth_file_fields)
  have file4: "the_auth_file st4 = the_auth_file st3"
    by (simp add: st4_def read_auth_file_fields)
  have gone: "new_entry (domain r) (address r) (mechanism r) (credentials r) (user_id r)
      \<notin> set (allow_entries (the_auth_file st4))"
    if "user_id r = Some u" "address r \<noteq> None" for r :: auth_record
  proof
    let ?n = "new_entry (domain r) (address r) (mechanism r) (credentials r) (user_id r)"
    assume "?n \<in> set (allow_entries (the_auth_file st4))"
    moreover have "user_id ?n = Some u" "address ?n \<noteq> None"
      using that by (simp_all add: new_entry_def)
    ultimately show False
      using no_allow file4 by auto
  qed
  have made: "new_entry (domain r) (address r) (mechanism r) (credentials r) (user_id r)
      \<in> set (allow_entries (the_auth_file (approve_authorization_failure P st u)))"
    if r: "r \<in> set (auth_pending st)" "user_id r = Some u"
      and fresh: "\<forall>e\<in>set (allow_entries (the_auth_file st)). credentials e \<noteq> credentials r"
    for r
  proof -
    from assms obtain x where one: "of_user u (auth_pending st) = [x]"
      by (cases "of_user u (auth_pending st)") auto
    from r have "r \<in> set (of_user u (auth_pending st))"
      by (simp add: of_user_def)
    moreover from find_user_Some [OF found] have "r0 \<in> set (of_user u (auth_pending st))"
      by (auto simp: of_user_def)
    ultimately have "r0 = r" using one by simp
    with found fresh show ?thesis
      using approve_persists by blast
  qed
  show ?thesis
    unfolding final using pending approved denied no_allow file4 gone made by auto
qed

lemma example_waiting_approved:
  "auth_pending (approve_authorization_failure example_platform example_waiting ''u7'') = []"
  "auth_approved (approve_authorization_failure example_platform example_waiting ''u7'') = []"
  "auth_denied (approve_authorization_failure example_platform example_waiting ''u7'') = []"
  "allow_entries (the_auth_file
     (approve_authorization_failure example_platform example_waiting ''u7''))
   = [new_entry (Some ''vip'') (Some ''10.0.0.7'') ''CURVE'' (Some ''key7'') (Some ''u7'')]"
proof -
  have found: "find_user ''u7'' (auth_pending example_waiting) = Some (0, example_pending)"
    by (simp add: example_waiting_def example_pending_def)
  show "auth_pending (approve_authorization_failure example_platform example_waiting ''u7'') = []"
    by (simp add: approve_fields found) (simp add: example_waiting_def)
  show "auth_approved (approve_authorization_failure example_platform example_waiting ''u7'') = []"
    by (simp add: approve_fields) (simp add: example_waiting_def example_service_def)
  show "auth_denied (approve_authorization_failure example_platform example_waiting ''u7'') = []"
    by (simp add: approve_fields) (simp add: example_waiting_def example_service_def)
  have store: "the_auth_file example_waiting = \<lparr>allow_entries = [], deny_entries = []\<rparr>"
    "auth_denied example_waiting = []"
    by (simp_all add: example_waiting_def example_service_def)
  have add: "auth_file_add
      (new_entry (Some ''vip'') (Some ''10.0.0.7'') ''CURVE'' (Some ''key7'') (Some ''u7''))
      False True \<lparr>allow_entries = [], deny_entries = []\<rparr>
    = Inr \<lparr>allow_entries =
         [new_entry (Some ''vip'') (Some ''10.0.0.7'') ''CURVE'' (Some ''key7'') (Some ''u7'')],
         deny_entries = []\<rparr>"
    by (simp add: auth_file_add_def)
  have fields: "domain example_pending = Some ''vip''" "address example_pending = Some ''10.0.0.7''"
    "mechanism example_pending = ''CURVE''" "credentials example_pending = Some ''key7''"
    "user_id example_pending = Some ''u7''"
    by (simp_all add: example_pending_def)
  show "allow_entries (the_auth_file
     (approve_authorization_failure example_platform example_waiting ''u7''))
   = [new_entry (Some ''vip'') (Some ''10.0.0.7'') ''CURVE'' (Some ''key7'') (Some ''u7'')]"
    by (simp add: approve_authorization_failure_def promote_pending_def found Let_def
        update_auth_entry_def store fields add of_user_def)
qed

theorem approve_reload_delete_reload_clears_witness:
  "length (of_user ''u7'' (auth_pending example_waiting)) = 1 \<and>
   new_entry (Some ''vip'') (Some ''10.0.0.7'') ''CURVE'' (Some ''key7'') (Some ''u7'')
     \<in> set (allow_entries (the_auth_file
         (approve_authorization_failure example_platform example_waiting ''u7''))) \<and>
   new_entry (Some ''vip'') (Some ''10.0.0.7'') ''CURVE'' (Some ''key7'') (Some ''u7'')
     \<notin> set (allow_entries (the_auth_file
         (approve_reload_delete_reload example_platform example_waiting ''u7''))) \<and>
   of_user ''u7'' (auth_pending
     (approve_reload_delete_reload example_platform example_waiting ''u7'')) = [] \<and>
   of_user ''u7'' (auth_approved
     (approve_reload_delete_reload example_platform example_waiting ''u7'')) = [] \<and>
   of_user ''u7'' (auth_denied
     (approve_reload_delete_reload example_platform example_waiting ''u7'')) = []"
proof -
  have one: "length (of_user ''u7'' (auth_pending example_waiting)) = 1"
    by (simp add: of_user_def example_waiting_def example_pending_def)
  note inst = approve_reload_delete_reload_clears [OF one, of example_platform]
  have member: "example_pending \<in> set (auth_pending example_waiting)"
    by (simp add: example_waiting_def)
  have fields: "domain example_pending = Some ''vip''" "address example_pending = Some ''10.0.0.7''"
    "mechanism example_pending = ''CURVE''" "credentials example_pending = Some ''key7''"
    "user_id example_pending = Some ''u7''"
    by (simp_all add: example_pending_def)
  have gone: "new_entry (Some ''vip'') (Some ''10.0.0.7'') ''CURVE'' (Some ''key7'') (Some ''u7'')
     \<notin> set (allow_entries (the_auth_file
         (approve_reload_delete_reload example_platform example_waiting ''u7'')))"
    using inst [THEN conjunct2, THEN conjunct2, THEN conjunct2, THEN conjunct2, THEN conjunct1,
        THEN bspec, OF member]
    by (simp add: fields)
  show ?thesis
    using one gone inst example_waiting_approved(4) by simp
qed

text \<open>
  Without a reload between the two calls the claim fails: Delete looks the user id up in the
  approved list, which Approve does not touch, so the entry that Approve persisted stays in
  the store, and the next reload puts the user id into the approved list.
\<close>

theorem approve_delete_counterexample:
  "of_user ''u7'' (auth_pending example_waiting) = [example_pending] \<and>
   allow_entries (the_auth_file
     (delete_authorization_failure example_platform
        (approve_authorization_failure example_platform example_waiting ''u7'') ''u7''))
   = [new_entry (Some ''vip'') (Some ''10.0.0.7'') ''CURVE'' (Some ''key7'') (Some ''u7'')] \<and>
   auth_approved
     (read_auth_file example_platform
        (delete_authorization_failure example_platform
           (approve_authorization_failure example_platform example_waiting ''u7'') ''u7''))
   = [\<lparr>domain = Some ''vip'', address = Some ''10.0.0.7'', mechanism = ''CURVE'',
       credentials = Some ''key7'', user_id = Some ''u7'', retries = 0\<rparr>]"
proof -
  let ?st1 = "approve_authorization_failure example_platform example_waiting ''u7''"
  have none: "of_user ''u7'' (auth_pending ?st1) = []"
    by (simp add: example_waiting_approved of_user_def)
  have kept: "allow_entries (the_auth_file
      (delete_authorization_failure example_platform ?st1 ''u7''))
    = [new_entry (Some ''vip'') (Some ''10.0.0.7'') ''CURVE'' (Some ''key7'') (Some ''u7'')]"
    using delete_not_pending(2) [OF none, of example_platform]
    by (simp add: example_waiting_approved of_user_def)
  have "of_user ''u7'' (auth_pending example_waiting) = [example_pending]"
    by (simp add: of_user_def example_waiting_def example_pending_def)
  moreover have "auth_approved (read_auth_file example_platform
        (delete_authorization_failure example_platform ?st1 ''u7''))
   = [\<lparr>domain = Some ''vip'', address = Some ''10.0.0.7'', mechanism = ''CURVE'',
       credentials = Some ''key7'', user_id = Some ''u7'', retries = 0\<rparr>]"
    by (simp add: read_auth_file_fields kept) (simp add: listed_def new_entry_def)
  ultimately show ?thesis
    using kept by simp
qed

end
